theory Spec2Isabelle
  imports
    Main
    "HOL-Library.Sublist"
    "HOL-Library.Char_ord"
    "HOL-Library.List_Lexorder"
begin

section \<open>Strings, maps and writers of the Go program\<close>

text \<open>
  A Go \<^verbatim>\<open>string\<close> is a sequence of bytes; it is modelled as \<^typ>\<open>string\<close>
  (a list of 8-bit characters). \<^verbatim>\<open>sort.Strings\<close> orders strings bytewise and
  lexicographically, which is the order of \<^theory_text>\<open>List_Lexorder\<close> over
  \<^theory_text>\<open>Char_ord\<close>; so \<^verbatim>\<open>sort.Strings\<close> is \<^const>\<open>sort\<close>.

  The three characters that cannot be written inside a string literal get a name.
\<close>

abbreviation nl :: string where \<open>nl \<equiv> [CHR 0x0A]\<close>
abbreviation tab :: string where \<open>tab \<equiv> [CHR 0x09]\<close>
abbreviation bsl :: string where \<open>bsl \<equiv> [CHR 0x5C]\<close>

text \<open>
  A Go \<^verbatim>\<open>map[string]T\<close> is modelled as an association list. The keys of a
  well-formed map are distinct; the order of the list stands for the order in which
  \<^verbatim>\<open>range\<close> happens to visit the map, which Go leaves unspecified.
\<close>

type_synonym 'v gomap = \<open>(string \<times> 'v) list\<close>

definition wellformed :: \<open>'v gomap \<Rightarrow> bool\<close> where
  \<open>wellformed m = distinct (map fst m)\<close>

text \<open>\<^verbatim>\<open>strings.HasPrefix(s, p)\<close>.\<close>

definition HasPrefix :: \<open>string \<Rightarrow> string \<Rightarrow> bool\<close> where
  \<open>HasPrefix s p = prefix p s\<close>

text \<open>
  \<^verbatim>\<open>strings.Split(s, sep)\<close> for a separator of one byte (the only use in the
  source is \<^verbatim>\<open>"\n"\<close>): the pieces between the occurrences of the separator, one
  more piece than there are occurrences.
\<close>

fun Split :: \<open>string \<Rightarrow> char \<Rightarrow> string list\<close> where
  \<open>Split [] sep = [[]]\<close>
| \<open>Split (c # cs) sep =
     (if c = sep then [] # Split cs sep
      else (case Split cs sep of
              [] \<Rightarrow> [[c]]
            | p # ps \<Rightarrow> (c # p) # ps))\<close>

text \<open>\<^verbatim>\<open>strings.Join(elems, sep)\<close>.\<close>

fun Join :: \<open>string list \<Rightarrow> string \<Rightarrow> string\<close> where
  \<open>Join [] sep = []\<close>
| \<open>Join [x] sep = x\<close>
| \<open>Join (x # y # ys) sep = x @ sep @ Join (y # ys) sep\<close>

text \<open>
  \<^verbatim>\<open>strings.Replace(s, old, "", -1)\<close> for \<^verbatim>\<open>old\<close> of one byte: every
  occurrence of the byte is removed.
\<close>

definition ReplaceAllEmpty :: \<open>string \<Rightarrow> char \<Rightarrow> string\<close> where
  \<open>ReplaceAllEmpty s old = filter (\<lambda>c. c \<noteq> old) s\<close>

section \<open>The model consumed by the generator\<close>

text \<open>
  Modelled from the spec: the declarations of \<^verbatim>\<open>Field\<close>, \<^verbatim>\<open>Struct\<close> and
  \<^verbatim>\<open>Generator\<close> are not part of \<^verbatim>\<open>output.go\<close>. The records below have the
  components that \<^verbatim>\<open>output.go\<close> reads, with the types it uses them at, as
  section 3 of the specification lists them. The components \<^verbatim>\<open>Name\<close> and
  \<^verbatim>\<open>Description\<close> of a \<^verbatim>\<open>Struct\<close> are called \<open>StructName\<close> and
  \<open>StructDescription\<close>, since a record component is a constant of the theory.
\<close>

record Field =
  Name :: string
  Description :: string
  MarshalName :: string
  UnmarshalName :: string
  MarshalType :: string
  UnmarshalType :: string
  Required :: bool
  OmitEmpty :: bool

record Struct =
  StructName :: string
  StructDescription :: string
  Fields :: \<open>Field gomap\<close>
  AdditionalType :: string
  GenerateCode :: bool

record Generator =
  Structs :: \<open>Struct gomap\<close>
  Aliases :: \<open>Field gomap\<close>

text \<open>
  Indexing a Go map with a key it does not hold gives the zero value of the value type.
\<close>

definition zeroField :: Field where
  \<open>zeroField = \<lparr>Name = [], Description = [], MarshalName = [], UnmarshalName = [],
     MarshalType = [], UnmarshalType = [], Required = False, OmitEmpty = False\<rparr>\<close>

definition zeroStruct :: Struct where
  \<open>zeroStruct = \<lparr>StructName = [], StructDescription = [], Fields = [],
     AdditionalType = [], GenerateCode = False\<rparr>\<close>

definition fieldAt :: \<open>Field gomap \<Rightarrow> string \<Rightarrow> Field\<close> where
  \<open>fieldAt m k = (case map_of m k of Some f \<Rightarrow> f | None \<Rightarrow> zeroField)\<close>

definition structAt :: \<open>Struct gomap \<Rightarrow> string \<Rightarrow> Struct\<close> where
  \<open>structAt m k = (case map_of m k of Some s \<Rightarrow> s | None \<Rightarrow> zeroStruct)\<close>

section \<open>Deterministic ordering\<close>

text \<open>
  Both functions collect the keys in the order \<^verbatim>\<open>range\<close> visits them and sort the
  result.
\<close>

definition getOrderedFieldNames :: \<open>Field gomap \<Rightarrow> string list\<close> where
  \<open>getOrderedFieldNames m = sort (map fst m)\<close>

definition getOrderedStructNames :: \<open>Struct gomap \<Rightarrow> string list\<close> where
  \<open>getOrderedStructNames m = sort (map fst m)\<close>

section \<open>Zero-value resolver\<close>

definition getZeroValueCheck :: \<open>string \<Rightarrow> string \<times> bool\<close> where
  \<open>getZeroValueCheck schemaType =
     (if HasPrefix schemaType ''*'' then (''nil'', True)
      else if HasPrefix schemaType ''[]'' then (''nil'', True)
      else if schemaType = ''array'' then (''nil'', True)
      else if schemaType = ''bool'' then (''false'', True)
      else if schemaType = ''int'' then (''0'', True)
      else if schemaType = ''float64'' then (''0'', True)
      else if schemaType = ''nil'' then (''nil'', True)
      else if schemaType = ''string'' then (''""'', True)
      else ('''', False))\<close>

section \<open>Marshal emitter\<close>

text \<open>
  An \<^verbatim>\<open>io.Writer\<close> is the text written to it so far; \<^verbatim>\<open>fmt.Fprintf(w, ...)\<close>
  appends the formatted text. The facility set \<^verbatim>\<open>imports\<close> is a
  \<^verbatim>\<open>map[string]bool\<close> in which every stored value is \<^verbatim>\<open>true\<close>, that is a set
  of keys. An emitter takes the writer and the set and returns both as it leaves them.

  The body of the loop of \<^verbatim>\<open>emitMarshalCode\<close> (source lines 140 to 193) is split in
  its two blocks: \<open>emitMarshalCode_required\<close> is the block under
  \<^verbatim>\<open>if f.Required\<close>, \<open>emitMarshalCode_serialize\<close> is the rest of the body, and
  \<open>emitMarshalCode_field\<close> is the body, where \<^verbatim>\<open>continue\<close> leaves the state as
  it is. \<open>emitMarshalCode_additional\<close> is the block under
  \<^verbatim>\<open>if s.AdditionalType != ""\<close> (source lines 196 to 212).
\<close>

definition emitMarshalCode_required ::
  \<open>Field \<Rightarrow> string \<times> string set \<Rightarrow> string \<times> string set\<close> where
  \<open>emitMarshalCode_required f = (\<lambda>(w, imports).
     if Required f then
       (let w = w @ ''    // "'' @ Name f @ ''" field is required'' @ nl in
        if HasPrefix (MarshalType f) ''*'' then
          (w @
           ''    if strct.'' @ Name f @ '' == nil {'' @ nl @
           ''        return nil, errors.New("'' @ MarshalName f @ '' is a required field")'' @ nl @
           ''    }'' @ nl,
           insert ''errors'' imports)
        else
          (w @ ''    // only required object types supported for marshal checking (for now)'' @ nl,
           imports))
     else (w, imports))\<close>

definition emitMarshalCode_serialize ::
  \<open>Field \<Rightarrow> string \<times> string set \<Rightarrow> string \<times> string set\<close> where
  \<open>emitMarshalCode_serialize f = (\<lambda>(w, imports).
     let w = (if OmitEmpty f then
                (let (zeroVal, haveZeroVal) = getZeroValueCheck (MarshalType f) in
                 if haveZeroVal then
                   w @
                   tab @ ''// omit empty'' @ nl @
                   tab @ ''if strct.'' @ Name f @ '' != '' @ zeroVal @ '' {'' @ nl
                 else
                   w @
                   tab @ ''// Check using reflect.Value'' @ nl @
                   tab @ ''if reflect.ValueOf(strct.'' @ Name f @ '').IsZero() {'' @ nl)
              else w);
         w = w @
           ''  // Marshal the "'' @ MarshalName f @ ''" field'' @ nl @
           tab @ ''if tmp, err := json.Marshal(strct.'' @ Name f @ ''); err != nil {'' @ nl @
           tab @ tab @ ''return nil, err'' @ nl @
           tab @ ''} else {'' @ nl;
         imports = insert ''fmt'' imports;
         w = w @
           ''lines = append(lines, fmt.Sprintf("'' @ bsl @ ''"'' @ MarshalName f @ bsl @ ''": %s", tmp))'';
         w = (if OmitEmpty f then
                w @
                nl @
                tab @ ''}'' @ nl @
                ''}'' @ nl @
                nl
              else
                w @
                nl @
                tab @ tab @ tab @ tab @ ''}'' @ nl @
                nl)
     in (w, imports))\<close>

definition emitMarshalCode_field ::
  \<open>Field \<Rightarrow> string \<times> string set \<Rightarrow> string \<times> string set\<close> where
  \<open>emitMarshalCode_field f st =
     (if MarshalName f = ''-'' then st
      else emitMarshalCode_serialize f (emitMarshalCode_required f st))\<close>

definition emitMarshalCode_additional ::
  \<open>Struct \<Rightarrow> string \<times> string set \<Rightarrow> string \<times> string set\<close> where
  \<open>emitMarshalCode_additional s = (\<lambda>(w, imports).
     (if AdditionalType s \<noteq> '''' then
        (if AdditionalType s \<noteq> ''false'' then
           (w @
            ''    // Marshal any additional Properties'' @ nl @
            ''    for k, v := range strct.AdditionalProperties {'' @
            nl @
            tab @ tab @ tab @ ''if tmp, err := json.Marshal(v); err != nil {'' @ nl @
            tab @ tab @ tab @ tab @ ''return nil, err'' @ nl @
            tab @ tab @ tab @ ''} else {'' @ nl @
            tab @ tab @ tab @ tab @ ''lines = append(lines, fmt.Sprintf("'' @ bsl @ ''"%s'' @ bsl @ ''": %s", k, tmp))'' @ nl @
            tab @ tab @ tab @ ''}'' @ nl @
            tab @ ''}'' @ nl,
            insert ''fmt'' imports)
         else (w, imports))
      else (w, imports)))\<close>

definition emitMarshalCode :: \<open>string \<Rightarrow> Struct \<Rightarrow> string set \<Rightarrow> string \<times> string set\<close> where
  \<open>emitMarshalCode w s imports =
     (let w = w @
            nl @
            ''func (strct '' @ StructName s @ '') MarshalJSON() ([]byte, error) {'' @ nl @
            tab @ ''lines := []string{}'' @ nl @
            tab @ nl;
          (w, imports) =
            (if length (Fields s) > 0 then
               fold (\<lambda>fieldKey. emitMarshalCode_field (fieldAt (Fields s) fieldKey))
                 (getOrderedFieldNames (Fields s)) (w, imports)
             else (w, imports));
          (w, imports) = emitMarshalCode_additional s (w, imports);
          imports = insert ''strings'' imports;
          w = w @
            nl @
            tab @ ''return []byte("{" + strings.Join(lines, ", ") + "}"), nil'' @ nl @
            ''}'' @ nl
      in (w, imports))\<close>

section \<open>Unmarshal emitter\<close>

definition emitUnmarshalFieldCode ::
  \<open>string \<Rightarrow> Field \<Rightarrow> string set \<Rightarrow> string \<times> string set\<close> where
  \<open>emitUnmarshalFieldCode w f imports =
     (if MarshalType f = UnmarshalType f then
        (w @
         ''        case "'' @ UnmarshalName f @ ''":'' @ nl @
         ''            if err := json.Unmarshal([]byte(v), &strct.'' @ Name f @ ''); err != nil {'' @ nl @
         ''                return err'' @ nl @
         ''             }'' @ nl,
         imports)
      else if UnmarshalType f = ''string'' then
        (if MarshalType f = ''int'' then
           (w @
            ''        case "'' @ UnmarshalName f @ ''":'' @ nl @
            ''            if newVal, err := strconv.ParseInt(v, 10, 0); err != nil {'' @ nl @
            ''                return err'' @ nl @
            ''             }'' @ nl @
            ''            if err := json.Unmarshal([]byte(newVal), &strct.'' @ Name f @ ''); err != nil {'' @ nl @
            ''                return err'' @ nl @
            ''             }'' @ nl,
            imports)
         else (w, imports))
      else if UnmarshalType f = ''int'' then
        (if MarshalType f = ''string'' then
           (w @
            ''        case "'' @ UnmarshalName f @ ''":'' @ nl @
            tab @ tab @ tab @ ''var intVal int'' @ nl @
            ''            if err := json.Unmarshal([]byte(v), &intVal); err != nil {'' @ nl @
            ''                return err'' @ nl @
            ''             }'' @ nl @
            ''            strct.'' @ Name f @ '' = strconv.Itoa(intVal)'' @ nl,
            insert ''strconv'' imports)
         else (w, imports))
      else (w, imports))\<close>

text \<open>
  The bodies of the three loops of \<^verbatim>\<open>emitUnmarshalCode\<close>: the received flags
  (source lines 277 to 282), the cases of the switch (297 to 309) and the checks after the
  loop (337 to 347); \<open>emitUnmarshalCode_additional\<close> is the block that handles the
  additional properties (311 to 332).
\<close>

definition emitUnmarshalCode_flag :: \<open>Field \<Rightarrow> string \<Rightarrow> string\<close> where
  \<open>emitUnmarshalCode_flag f w =
     (if Required f then w @ ''    '' @ UnmarshalName f @ ''Received := false'' @ nl
      else w)\<close>

definition emitUnmarshalCode_case ::
  \<open>Field \<Rightarrow> string \<times> string set \<Rightarrow> string \<times> string set\<close> where
  \<open>emitUnmarshalCode_case f = (\<lambda>(w, imports).
     if UnmarshalName f = ''-'' then (w, imports)
     else
       (let (w, imports) = emitUnmarshalFieldCode w f imports in
        if Required f then
          (w @ ''            '' @ UnmarshalName f @ ''Received = true'' @ nl, imports)
        else (w, imports)))\<close>

definition emitUnmarshalCode_check ::
  \<open>Field \<Rightarrow> string \<times> string set \<Rightarrow> string \<times> string set\<close> where
  \<open>emitUnmarshalCode_check f = (\<lambda>(w, imports).
     if Required f then
       (w @
        ''    // check if '' @ UnmarshalName f @ '' (a required property) was received'' @ nl @
        ''    if !'' @ UnmarshalName f @ ''Received {'' @ nl @
        ''        return errors.New("'' @ bsl @ ''"'' @ UnmarshalName f @ bsl @ ''" is required but was not present")'' @ nl @
        ''    }'' @ nl,
        insert ''errors'' imports)
     else (w, imports))\<close>

definition emitUnmarshalCode_additional ::
  \<open>Struct \<Rightarrow> string \<times> string set \<Rightarrow> string \<times> string set\<close> where
  \<open>emitUnmarshalCode_additional s = (\<lambda>(w, imports).
     (if AdditionalType s \<noteq> '''' then
        (if AdditionalType s = ''false'' then
           (w @
            ''        default:'' @ nl @
            ''            continue'' @ nl,
            insert ''fmt'' imports)
         else
           (w @
            ''        default:'' @ nl @
            ''            // an additional "'' @ AdditionalType s @ ''" value'' @ nl @
            ''            var additionalValue '' @ AdditionalType s @ nl @
            ''            if err := json.Unmarshal([]byte(v), &additionalValue); err != nil {'' @ nl @
            ''                return err // invalid additionalProperty'' @ nl @
            ''            }'' @ nl @
            ''            if strct.AdditionalProperties == nil {'' @ nl @
            ''                strct.AdditionalProperties = make(map[string]'' @ AdditionalType s @ '', 0)'' @ nl @
            ''            }'' @ nl @
            ''            strct.AdditionalProperties[k]= additionalValue'' @ nl,
            imports))
      else (w, imports)))\<close>

definition emitUnmarshalCode :: \<open>string \<Rightarrow> Struct \<Rightarrow> string set \<Rightarrow> string \<times> string set\<close> where
  \<open>emitUnmarshalCode w s imports =
     (let imports = insert ''encoding/json'' imports;
          w = w @
            nl @
            ''func (strct *'' @ StructName s @ '') UnmarshalJSON(b []byte) error {'' @ nl;
          w = fold (\<lambda>fieldKey. emitUnmarshalCode_flag (fieldAt (Fields s) fieldKey))
                (getOrderedFieldNames (Fields s)) w;
          w = w @
            ''    var jsonMap map[string]json.RawMessage'' @ nl @
            ''    if err := json.Unmarshal(b, &jsonMap); err != nil {'' @ nl @
            ''        return err'' @ nl @
            ''    }'';
          w = w @
            nl @
            ''    // parse all the defined properties'' @ nl @
            ''    for k, v := range jsonMap {'' @ nl @
            ''        if v != nil {'' @ nl @
            tab @ tab @ tab @ ''switch k {'' @ nl;
          (w, imports) =
            fold (\<lambda>fieldKey. emitUnmarshalCode_case (fieldAt (Fields s) fieldKey))
              (getOrderedFieldNames (Fields s)) (w, imports);
          (w, imports) = emitUnmarshalCode_additional s (w, imports);
          w = w @ ''        }}'' @ nl;
          w = w @ ''    }'' @ nl;
          (w, imports) =
            fold (\<lambda>fieldKey. emitUnmarshalCode_check (fieldAt (Fields s) fieldKey))
              (getOrderedFieldNames (Fields s)) (w, imports);
          w = w @ ''    return nil'' @ nl;
          w = w @ ''}'' @ nl
      in (w, imports))\<close>

section \<open>Map-view emitter\<close>

definition emitToMapCode_entry :: \<open>Field \<Rightarrow> string \<Rightarrow> string\<close> where
  \<open>emitToMapCode_entry f w =
     w @ ''    m["'' @ MarshalName f @ ''"] = strct.'' @ Name f @ nl\<close>

definition emitToMapCode :: \<open>string \<Rightarrow> Struct \<Rightarrow> string\<close> where
  \<open>emitToMapCode w s =
     (let w = w @
            nl @
            ''func (strct *'' @ StructName s @ '') ToMap() map[string]any {'' @ nl;
          w = w @ ''    m := make(map[string]any)'' @ nl;
          w = fold (\<lambda>fieldKey. emitToMapCode_entry (fieldAt (Fields s) fieldKey))
                (getOrderedFieldNames (Fields s)) w;
          w = w @ ''    return m'' @ nl;
          w = w @ ''}'' @ nl
      in w)\<close>

section \<open>Orchestrator\<close>

definition outputNameAndDescriptionComment :: \<open>string \<Rightarrow> string \<Rightarrow> string \<Rightarrow> string\<close> where
  \<open>outputNameAndDescriptionComment name description w =
     (if CHR 0x0A \<notin> set description then
        w @ ''// '' @ name @ '' '' @ description @ nl
      else
        (let dl = Split description (CHR 0x0A) in
         w @ ''// '' @ name @ '' '' @ Join dl (nl @ ''// '') @ nl))\<close>

definition outputFieldDescriptionComment :: \<open>string \<Rightarrow> string \<Rightarrow> string\<close> where
  \<open>outputFieldDescriptionComment description w =
     (if CHR 0x0A \<notin> set description then
        w @ nl @ ''  // '' @ description @ nl
      else
        (let dl = Split description (CHR 0x0A) in
         w @ nl @ ''  // '' @ Join dl (nl @ ''  // '') @ nl))\<close>

definition cleanPackageName :: \<open>string \<Rightarrow> string\<close> where
  \<open>cleanPackageName pkg =
     (let pkg = ReplaceAllEmpty pkg (CHR ''.'');
          pkg = ReplaceAllEmpty pkg (CHR ''-'')
      in pkg)\<close>

text \<open>
  The bodies of the loops of \<^verbatim>\<open>Output\<close>: the routines of one record (source lines
  74 to 79), one line of the import block (85), one alias (91 to 95), one field of a
  declaration (106 to 119) and one declaration (99 to 122).
\<close>

definition Output_code :: \<open>Struct \<Rightarrow> string \<times> string set \<Rightarrow> string \<times> string set\<close> where
  \<open>Output_code s = (\<lambda>(codeBuf, imports).
     if GenerateCode s then
       (let (codeBuf, imports) = emitMarshalCode codeBuf s imports;
            (codeBuf, imports) = emitUnmarshalCode codeBuf s imports;
            codeBuf = emitToMapCode codeBuf s
        in (codeBuf, imports))
     else (codeBuf, imports))\<close>

definition Output_import :: \<open>string \<Rightarrow> string \<Rightarrow> string\<close> where
  \<open>Output_import k w = w @ ''    "'' @ k @ ''"'' @ nl\<close>

definition Output_alias :: \<open>Field \<Rightarrow> string \<Rightarrow> string\<close> where
  \<open>Output_alias a w =
     (let w = w @ '''' @ nl;
          w = w @ ''// '' @ Name a @ nl;
          w = w @ ''type '' @ Name a @ '' '' @ UnmarshalType a @ nl
      in w)\<close>

definition Output_field :: \<open>Field \<Rightarrow> string \<Rightarrow> string\<close> where
  \<open>Output_field f w =
     (let w = (if Description f \<noteq> '''' then outputFieldDescriptionComment (Description f) w
               else w)
      in w @ ''  '' @ Name f @ '' '' @ MarshalType f @ nl)\<close>

definition Output_struct :: \<open>Struct \<Rightarrow> string \<Rightarrow> string\<close> where
  \<open>Output_struct s w =
     (let w = w @ '''' @ nl;
          w = outputNameAndDescriptionComment (StructName s) (StructDescription s) w;
          w = w @ ''type '' @ StructName s @ '' struct {'' @ nl;
          w = fold (\<lambda>fieldKey. Output_field (fieldAt (Fields s) fieldKey))
                (getOrderedFieldNames (Fields s)) w;
          w = w @ ''}'' @ nl
      in w)\<close>

text \<open>
  \<^verbatim>\<open>Output\<close> ranges over \<^verbatim>\<open>imports\<close> directly (source line 84). Go visits the
  keys of a map in an order it does not specify and that changes from one \<^verbatim>\<open>range\<close>
  to the next; the order the runtime picks is the parameter \<open>rangeOrder\<close>, which
  lists the keys of the set it is given, each once (\<open>validRange\<close>).
\<close>

definition validRange :: \<open>(string set \<Rightarrow> string list) \<Rightarrow> string set \<Rightarrow> bool\<close> where
  \<open>validRange rangeOrder S = (set (rangeOrder S) = S \<and> distinct (rangeOrder S))\<close>

definition Output ::
  \<open>(string set \<Rightarrow> string list) \<Rightarrow> string \<Rightarrow> Generator \<Rightarrow> string \<Rightarrow> string\<close> where
  \<open>Output rangeOrder w g pkg =
     (let structs = Structs g;
          aliases = Aliases g;
          w = w @ ''// Code generated by schema-generate. DO NOT EDIT.'' @ nl;
          w = w @ nl;
          w = w @ ''package '' @ cleanPackageName pkg @ nl;
          codeBuf = [];
          imports = {};
          (codeBuf, imports) =
            fold (\<lambda>k. Output_code (structAt structs k))
              (getOrderedStructNames structs) (codeBuf, imports);
          w = (if imports \<noteq> {} then
                 (let w = w @ nl @ ''import ('' @ nl;
                      w = fold Output_import (rangeOrder imports) w
                  in w @ '')'' @ nl)
               else w);
          w = fold (\<lambda>k. Output_alias (fieldAt aliases k)) (getOrderedFieldNames aliases) w;
          w = fold (\<lambda>k. Output_struct (structAt structs k)) (getOrderedStructNames structs) w
      in w @ codeBuf)\<close>

section \<open>Parts of the emitted text\<close>

text \<open>
  The values a sorted loop visits: the entries of a map in the order of
  \<^verbatim>\<open>getOrderedFieldNames\<close> and \<^verbatim>\<open>getOrderedStructNames\<close>.
\<close>

definition fieldsInOrder :: \<open>Field gomap \<Rightarrow> Field list\<close> where
  \<open>fieldsInOrder m = map (fieldAt m) (getOrderedFieldNames m)\<close>

definition structsInOrder :: \<open>Struct gomap \<Rightarrow> Struct list\<close> where
  \<open>structsInOrder m = map (structAt m) (getOrderedStructNames m)\<close>

text \<open>
  What each emitter writes into an empty buffer, and the facilities it registers in an
  empty set.
\<close>

definition marshalRoutine :: \<open>Struct \<Rightarrow> string\<close> where
  \<open>marshalRoutine s = fst (emitMarshalCode [] s {})\<close>

definition unmarshalRoutine :: \<open>Struct \<Rightarrow> string\<close> where
  \<open>unmarshalRoutine s = fst (emitUnmarshalCode [] s {})\<close>

definition toMapRoutine :: \<open>Struct \<Rightarrow> string\<close> where
  \<open>toMapRoutine s = emitToMapCode [] s\<close>

definition routineImports :: \<open>Struct \<Rightarrow> string set\<close> where
  \<open>routineImports s = snd (emitMarshalCode [] s {}) \<union> snd (emitUnmarshalCode [] s {})\<close>

text \<open>The facility set as \<^verbatim>\<open>Output\<close> holds it when it writes the import block.\<close>

definition collectedImports :: \<open>Generator \<Rightarrow> string set\<close> where
  \<open>collectedImports g =
     \<Union>(routineImports ` set (filter GenerateCode (structsInOrder (Structs g))))\<close>

text \<open>
  The emitted unmarshal routine up to the place of the \<^verbatim>\<open>default\<close> case of its
  switch (the opening line, the received flags, the parse of the input, the head of the
  loop and the cases), and from the end of the switch on.
\<close>

definition unmarshalBeforeDefault :: \<open>Struct \<Rightarrow> string\<close> where
  \<open>unmarshalBeforeDefault s =
     nl @
     ''func (strct *'' @ StructName s @ '') UnmarshalJSON(b []byte) error {'' @ nl @
     concat (map (\<lambda>f. emitUnmarshalCode_flag f []) (fieldsInOrder (Fields s))) @
     ''    var jsonMap map[string]json.RawMessage'' @ nl @
     ''    if err := json.Unmarshal(b, &jsonMap); err != nil {'' @ nl @
     ''        return err'' @ nl @
     ''    }'' @
     nl @
     ''    // parse all the defined properties'' @ nl @
     ''    for k, v := range jsonMap {'' @ nl @
     ''        if v != nil {'' @ nl @
     tab @ tab @ tab @ ''switch k {'' @ nl @
     concat (map (\<lambda>f. fst (emitUnmarshalCode_case f ([], {}))) (fieldsInOrder (Fields s)))\<close>

definition unmarshalAfterDefault :: \<open>Struct \<Rightarrow> string\<close> where
  \<open>unmarshalAfterDefault s =
     ''        }}'' @ nl @
     ''    }'' @ nl @
     concat (map (\<lambda>f. fst (emitUnmarshalCode_check f ([], {}))) (fieldsInOrder (Fields s))) @
     ''    return nil'' @ nl @
     ''}'' @ nl\<close>

section \<open>Example models\<close>

text \<open>
  Concrete models at which the properties are evaluated. \<open>exField\<close> builds a field
  with no description whose two external keys are the same; \<open>exStruct\<close> builds the
  record \<^verbatim>\<open>T\<close> with the given fields, no additional type and code generation
  switched on; \<open>exGenerator\<close> builds the model that holds this record only. The
  constants after them name the models used below, by the number of the property.
\<close>

definition exField :: \<open>string \<Rightarrow> string \<Rightarrow> string \<Rightarrow> string \<Rightarrow> bool \<Rightarrow> bool \<Rightarrow> Field\<close> where
  \<open>exField name key marshalType unmarshalType required omitEmpty =
     \<lparr>Name = name, Description = '''', MarshalName = key, UnmarshalName = key,
      MarshalType = marshalType, UnmarshalType = unmarshalType,
      Required = required, OmitEmpty = omitEmpty\<rparr>\<close>

definition exStruct :: \<open>Field gomap \<Rightarrow> Struct\<close> where
  \<open>exStruct fs =
     \<lparr>StructName = ''T'', StructDescription = '''', Fields = fs,
      AdditionalType = '''', GenerateCode = True\<rparr>\<close>

definition exGenerator :: \<open>Field gomap \<Rightarrow> Generator\<close> where
  \<open>exGenerator fs = \<lparr>Structs = [(''T'', exStruct fs)], Aliases = []\<rparr>\<close>

definition s9 :: Struct where
  \<open>s9 = exStruct [(''Secret'', exField ''Secret'' ''-'' ''string'' ''string'' False False),
                    (''Age'', exField ''Age'' ''age'' ''int'' ''int'' False False)]\<close>


definition s6 :: Struct where
  \<open>s6 = exStruct [(''Flag'', exField ''Flag'' ''flag'' ''bool'' ''string'' True False)]\<close>

definition s6w :: Struct where
  \<open>s6w = exStruct [(''Flag'', exField ''Flag'' ''flag'' ''bool'' ''string'' False False),
                     (''Age'', exField ''Age'' ''age'' ''int'' ''int'' True False)]\<close>



definition s2 :: Struct where
  \<open>s2 = exStruct [(''Home'', exField ''Home'' ''home'' ''Address'' ''Address'' False True)]\<close>

definition g3 :: Generator where
  \<open>g3 = exGenerator [(''Age'', exField ''Age'' ''age'' ''int'' ''string'' False False)]\<close>

section \<open>Properties\<close>

subsection \<open>Every emitter appends to its writer and adds to the facility set\<close>

text \<open>
  What an emitter writes and registers does not depend on the text already in the writer
  nor on the facilities already in the set: the result is the text the emitter writes into
  an empty buffer, appended, and the facilities it registers in an empty set, added. The
  loops therefore write the concatenation of what their bodies write, in the order of the
  keys.
\<close>

lemma fold_frame2:
  assumes \<open>\<And>x w I. step x (w, I) = (w @ tx x, I \<union> ix x)\<close>
  shows \<open>fold step xs (w, I) = (w @ concat (map tx xs), I \<union> \<Union>(ix ` set xs))\<close>
  by (induction xs arbitrary: w I) (simp_all add: assms Un_assoc)

lemma fold_frame1:
  assumes \<open>\<And>x w. step x w = w @ tx x\<close>
  shows \<open>fold step xs w = w @ concat (map tx xs)\<close>
  by (induction xs arbitrary: w) (simp_all add: assms)

lemma if_pair: \<open>(if c then (a, b) else (x, y)) = (if c then a else x, if c then b else y)\<close>
  by simp

lemmas frame_simps =
  append_assoc append_Nil append_Nil2 fst_conv snd_conv Un_insert_right Un_empty_right
  Un_empty_left Un_assoc Un_insert_left if_pair
  if_distrib [of \<open>\<lambda>x. x \<union> _\<close>]
  if_distrib [of \<open>\<lambda>x. x @ _\<close>] if_distrib [of \<open>\<lambda>x. _ @ x\<close>]
  if_distrib [of \<open>\<lambda>x. _ \<union> x\<close>]
  if_distrib [of \<open>\<lambda>x. insert _ x\<close>]

lemma emitMarshalCode_required_frame:
  \<open>emitMarshalCode_required f (w, I) =
     (w @ fst (emitMarshalCode_required f ([], {})), I \<union> snd (emitMarshalCode_required f ([], {})))\<close>
  unfolding emitMarshalCode_required_def Let_def split_def
  by (simp only: frame_simps cong: if_cong)

lemma emitMarshalCode_serialize_frame:
  \<open>emitMarshalCode_serialize f (w, I) =
     (w @ fst (emitMarshalCode_serialize f ([], {})), I \<union> snd (emitMarshalCode_serialize f ([], {})))\<close>
  unfolding emitMarshalCode_serialize_def Let_def split_def
  by (simp only: frame_simps cong: if_cong)

lemma emitMarshalCode_field_frame:
  \<open>emitMarshalCode_field f (w, I) =
     (w @ fst (emitMarshalCode_field f ([], {})), I \<union> snd (emitMarshalCode_field f ([], {})))\<close>
proof (cases \<open>MarshalName f = ''-''\<close>)
  case True
  then show ?thesis by (simp only: emitMarshalCode_field_def if_True frame_simps refl)
next
  case False
  obtain t1 i1 where r0: \<open>emitMarshalCode_required f ([], {}) = (t1, i1)\<close>
    by (cases \<open>emitMarshalCode_required f ([], {})\<close>)
  have r: \<open>emitMarshalCode_required f (w, I) = (w @ t1, I \<union> i1)\<close>
    using emitMarshalCode_required_frame [of f w I] by (simp only: r0 fst_conv snd_conv)
  have s1: \<open>emitMarshalCode_serialize f (w @ t1, I \<union> i1) =
      ((w @ t1) @ fst (emitMarshalCode_serialize f ([], {})),
       (I \<union> i1) \<union> snd (emitMarshalCode_serialize f ([], {})))\<close>
    by (rule emitMarshalCode_serialize_frame)
  have s2: \<open>emitMarshalCode_serialize f (t1, i1) =
      (t1 @ fst (emitMarshalCode_serialize f ([], {})),
       i1 \<union> snd (emitMarshalCode_serialize f ([], {})))\<close>
    by (rule emitMarshalCode_serialize_frame)
  show ?thesis
    by (simp only: emitMarshalCode_field_def False if_False r r0 s1 s2 frame_simps)
qed


lemma getOrderedFieldNames_Nil: \<open>getOrderedFieldNames [] = []\<close>
  by (simp add: getOrderedFieldNames_def)

lemma emitMarshalCode_fold:
  \<open>fold (\<lambda>k. emitMarshalCode_field (g k)) ks (w, I) =
     (w @ concat (map (\<lambda>k. fst (emitMarshalCode_field (g k) ([], {}))) ks),
      I \<union> \<Union>((\<lambda>k. snd (emitMarshalCode_field (g k) ([], {}))) ` set ks))\<close>
  by (rule fold_frame2) (rule emitMarshalCode_field_frame)

lemma emitMarshalCode_frame:
  \<open>emitMarshalCode w s I =
     (w @ fst (emitMarshalCode [] s {}), I \<union> snd (emitMarshalCode [] s {}))\<close>
  unfolding emitMarshalCode_def emitMarshalCode_additional_def Let_def split_def
  by (simp only: emitMarshalCode_fold frame_simps cong: if_cong)

lemma emitUnmarshalFieldCode_frame:
  \<open>emitUnmarshalFieldCode w f I =
     (w @ fst (emitUnmarshalFieldCode [] f {}), I \<union> snd (emitUnmarshalFieldCode [] f {}))\<close>
  unfolding emitUnmarshalFieldCode_def
  by (simp only: frame_simps cong: if_cong)

lemma emitUnmarshalCode_flag_frame:
  \<open>emitUnmarshalCode_flag f w = w @ emitUnmarshalCode_flag f []\<close>
  unfolding emitUnmarshalCode_flag_def
  by (simp only: frame_simps cong: if_cong)

lemma emitUnmarshalCode_case_frame:
  \<open>emitUnmarshalCode_case f (w, I) =
     (w @ fst (emitUnmarshalCode_case f ([], {})), I \<union> snd (emitUnmarshalCode_case f ([], {})))\<close>
proof -
  obtain t i where e0: \<open>emitUnmarshalFieldCode [] f {} = (t, i)\<close>
    by (cases \<open>emitUnmarshalFieldCode [] f {}\<close>)
  have e: \<open>emitUnmarshalFieldCode w f I = (w @ t, I \<union> i)\<close>
    using emitUnmarshalFieldCode_frame [of w f I] by (simp only: e0 fst_conv snd_conv)
  show ?thesis
    unfolding emitUnmarshalCode_case_def Let_def
    by (simp only: e e0 prod.case frame_simps cong: if_cong)
qed

lemma emitUnmarshalCode_check_frame:
  \<open>emitUnmarshalCode_check f (w, I) =
     (w @ fst (emitUnmarshalCode_check f ([], {})), I \<union> snd (emitUnmarshalCode_check f ([], {})))\<close>
  unfolding emitUnmarshalCode_check_def
  by (simp only: prod.case frame_simps cong: if_cong)

lemma emitUnmarshalCode_flag_fold:
  \<open>fold (\<lambda>k. emitUnmarshalCode_flag (g k)) ks w =
     w @ concat (map (\<lambda>k. emitUnmarshalCode_flag (g k) []) ks)\<close>
  by (rule fold_frame1) (rule emitUnmarshalCode_flag_frame)

lemma emitUnmarshalCode_case_fold:
  \<open>fold (\<lambda>k. emitUnmarshalCode_case (g k)) ks (w, I) =
     (w @ concat (map (\<lambda>k. fst (emitUnmarshalCode_case (g k) ([], {}))) ks),
      I \<union> \<Union>((\<lambda>k. snd (emitUnmarshalCode_case (g k) ([], {}))) ` set ks))\<close>
  by (rule fold_frame2) (rule emitUnmarshalCode_case_frame)

lemma emitUnmarshalCode_check_fold:
  \<open>fold (\<lambda>k. emitUnmarshalCode_check (g k)) ks (w, I) =
     (w @ concat (map (\<lambda>k. fst (emitUnmarshalCode_check (g k) ([], {}))) ks),
      I \<union> \<Union>((\<lambda>k. snd (emitUnmarshalCode_check (g k) ([], {}))) ` set ks))\<close>
  by (rule fold_frame2) (rule emitUnmarshalCode_check_frame)

lemma emitUnmarshalCode_frame:
  \<open>emitUnmarshalCode w s I =
     (w @ fst (emitUnmarshalCode [] s {}), I \<union> snd (emitUnmarshalCode [] s {}))\<close>
  unfolding emitUnmarshalCode_def emitUnmarshalCode_additional_def Let_def split_def
  by (simp only: emitUnmarshalCode_flag_fold emitUnmarshalCode_case_fold
        emitUnmarshalCode_check_fold frame_simps cong: if_cong)

lemma emitToMapCode_entry_frame:
  \<open>emitToMapCode_entry f w = w @ emitToMapCode_entry f []\<close>
  unfolding emitToMapCode_entry_def by (simp only: frame_simps)

lemma emitToMapCode_fold:
  \<open>fold (\<lambda>k. emitToMapCode_entry (g k)) ks w =
     w @ concat (map (\<lambda>k. emitToMapCode_entry (g k) []) ks)\<close>
  by (rule fold_frame1) (rule emitToMapCode_entry_frame)

lemma emitToMapCode_frame: \<open>emitToMapCode w s = w @ emitToMapCode [] s\<close>
  unfolding emitToMapCode_def Let_def
  by (simp only: emitToMapCode_fold frame_simps)


lemma emitMarshalCode_sections:
  \<open>fst (emitMarshalCode w s I) =
     w @
     nl @
     ''func (strct '' @ StructName s @ '') MarshalJSON() ([]byte, error) {'' @ nl @
     tab @ ''lines := []string{}'' @ nl @
     tab @ nl @
     concat (map (\<lambda>f. fst (emitMarshalCode_field f ([], {}))) (fieldsInOrder (Fields s))) @
     fst (emitMarshalCode_additional s ([], {})) @
     nl @
     tab @ ''return []byte("{" + strings.Join(lines, ", ") + "}"), nil'' @ nl @
     ''}'' @ nl\<close>
proof (cases \<open>length (Fields s) > 0\<close>)
  case True
  show ?thesis
    unfolding emitMarshalCode_def emitMarshalCode_additional_def fieldsInOrder_def Let_def
      split_def
    by (simp only: True if_True emitMarshalCode_fold map_map o_def frame_simps cong: if_cong)
next
  case False
  then have e: \<open>getOrderedFieldNames (Fields s) = []\<close>
    by (simp add: getOrderedFieldNames_def)
  show ?thesis
    unfolding emitMarshalCode_def emitMarshalCode_additional_def fieldsInOrder_def Let_def
      split_def
    by (simp only: False if_False e list.map concat.simps frame_simps cong: if_cong)
qed

lemma emitUnmarshalCode_sections:
  \<open>fst (emitUnmarshalCode w s I) =
     w @ unmarshalBeforeDefault s @ fst (emitUnmarshalCode_additional s ([], {})) @
     unmarshalAfterDefault s\<close>
  unfolding emitUnmarshalCode_def emitUnmarshalCode_additional_def fieldsInOrder_def Let_def
    split_def unmarshalBeforeDefault_def unmarshalAfterDefault_def
  by (simp only: emitUnmarshalCode_flag_fold emitUnmarshalCode_case_fold
        emitUnmarshalCode_check_fold map_map o_def frame_simps cong: if_cong)

lemma Output_code_frame:
  \<open>Output_code s (c, I) =
     (c @ (if GenerateCode s then marshalRoutine s @ unmarshalRoutine s @ toMapRoutine s else []),
      I \<union> (if GenerateCode s then routineImports s else {}))\<close>
proof (cases \<open>GenerateCode s\<close>)
  case False
  then show ?thesis
    unfolding Output_code_def by (simp only: prod.case if_False frame_simps)
next
  case True
  obtain m mi where m0: \<open>emitMarshalCode [] s {} = (m, mi)\<close>
    by (cases \<open>emitMarshalCode [] s {}\<close>)
  obtain u ui where u0: \<open>emitUnmarshalCode [] s {} = (u, ui)\<close>
    by (cases \<open>emitUnmarshalCode [] s {}\<close>)
  have m: \<open>emitMarshalCode c s I = (c @ m, I \<union> mi)\<close>
    using emitMarshalCode_frame [of c s I] by (simp only: m0 fst_conv snd_conv)
  have u: \<open>emitUnmarshalCode (c @ m) s (I \<union> mi) = ((c @ m) @ u, (I \<union> mi) \<union> ui)\<close>
    using emitUnmarshalCode_frame [of \<open>c @ m\<close> s \<open>I \<union> mi\<close>]
    by (simp only: u0 fst_conv snd_conv)
  have t: \<open>emitToMapCode (c @ m @ u) s = (c @ m @ u) @ emitToMapCode [] s\<close>
    by (rule emitToMapCode_frame)
  show ?thesis
    unfolding Output_code_def Let_def marshalRoutine_def unmarshalRoutine_def
      toMapRoutine_def routineImports_def
    by (simp only: prod.case True if_True m u t m0 u0 frame_simps)
qed

lemma concat_map_if_filter:
  \<open>concat (map (\<lambda>x. if P x then f x else []) xs) = concat (map f (filter P xs))\<close>
  by (induction xs) simp_all

lemma Union_if_filter:
  \<open>\<Union>((\<lambda>x. if P x then f x else {}) ` set xs) = \<Union>(f ` set (filter P xs))\<close>
  by (induction xs) simp_all

lemma Output_code_fold:
  \<open>fold (\<lambda>k. Output_code (g k)) ks ([], {}) =
     (concat (map (\<lambda>s. marshalRoutine s @ unmarshalRoutine s @ toMapRoutine s)
        (filter GenerateCode (map g ks))),
      \<Union>(routineImports ` set (filter GenerateCode (map g ks))))\<close>
proof -
  have \<open>fold (\<lambda>k. Output_code (g k)) ks ([], {}) =
     ([] @ concat (map (\<lambda>k. if GenerateCode (g k)
         then marshalRoutine (g k) @ unmarshalRoutine (g k) @ toMapRoutine (g k) else []) ks),
      {} \<union> \<Union>((\<lambda>k. if GenerateCode (g k) then routineImports (g k) else {}) ` set ks))\<close>
    by (rule fold_frame2) (rule Output_code_frame)
  also have \<open>concat (map (\<lambda>k. if GenerateCode (g k)
         then marshalRoutine (g k) @ unmarshalRoutine (g k) @ toMapRoutine (g k) else []) ks) =
     concat (map (\<lambda>s. marshalRoutine s @ unmarshalRoutine s @ toMapRoutine s)
        (filter GenerateCode (map g ks)))\<close>
    using concat_map_if_filter [of GenerateCode
        \<open>\<lambda>s. marshalRoutine s @ unmarshalRoutine s @ toMapRoutine s\<close> \<open>map g ks\<close>]
    by (simp only: map_map o_def)
  also have \<open>\<Union>((\<lambda>k. if GenerateCode (g k) then routineImports (g k) else {}) ` set ks) =
     \<Union>(routineImports ` set (filter GenerateCode (map g ks)))\<close>
    using Union_if_filter [of GenerateCode routineImports \<open>map g ks\<close>]
    by (simp only: set_map image_image)
  finally show ?thesis by (simp only: append_Nil Un_empty_left)
qed

lemma Output_import_fold:
  \<open>fold Output_import ks w = w @ concat (map (\<lambda>k. ''    "'' @ k @ ''"'' @ nl) ks)\<close>
  by (rule fold_frame1) (simp only: Output_import_def)

lemma Output_alias_fold:
  \<open>fold (\<lambda>k. Output_alias (g k)) ks w = w @ concat (map (\<lambda>k. Output_alias (g k) []) ks)\<close>
  by (rule fold_frame1) (simp only: Output_alias_def Let_def frame_simps)

lemma outputFieldDescriptionComment_frame:
  \<open>outputFieldDescriptionComment d w = w @ outputFieldDescriptionComment d []\<close>
  unfolding outputFieldDescriptionComment_def Let_def
  by (simp only: frame_simps cong: if_cong)

lemma outputNameAndDescriptionComment_frame:
  \<open>outputNameAndDescriptionComment n d w = w @ outputNameAndDescriptionComment n d []\<close>
  unfolding outputNameAndDescriptionComment_def Let_def
  by (simp only: frame_simps cong: if_cong)

lemma Output_field_text:
  \<open>Output_field f w =
     w @ (if Description f \<noteq> '''' then outputFieldDescriptionComment (Description f) [] else []) @
     ''  '' @ Name f @ '' '' @ MarshalType f @ nl\<close>
proof (cases \<open>Description f \<noteq> ''''\<close>)
  case True
  show ?thesis
    unfolding Output_field_def Let_def
    using outputFieldDescriptionComment_frame [of \<open>Description f\<close> w]
    by (simp only: True if_True frame_simps)
next
  case False
  show ?thesis
    unfolding Output_field_def Let_def
    by (simp only: False if_False frame_simps)
qed

lemma Output_field_fold:
  \<open>fold (\<lambda>k. Output_field (g k)) ks w =
     w @ concat (map (\<lambda>k.
       (if Description (g k) \<noteq> '''' then outputFieldDescriptionComment (Description (g k)) []
        else []) @
       ''  '' @ Name (g k) @ '' '' @ MarshalType (g k) @ nl) ks)\<close>
  by (rule fold_frame1) (rule Output_field_text)

lemma Output_struct_text:
  \<open>Output_struct s w =
     w @ nl @
     outputNameAndDescriptionComment (StructName s) (StructDescription s) [] @
     ''type '' @ StructName s @ '' struct {'' @ nl @
     concat (map (\<lambda>f.
       (if Description f \<noteq> '''' then outputFieldDescriptionComment (Description f) []
        else []) @
       ''  '' @ Name f @ '' '' @ MarshalType f @ nl) (fieldsInOrder (Fields s))) @
     ''}'' @ nl\<close>
  unfolding Output_struct_def Let_def fieldsInOrder_def
  using outputNameAndDescriptionComment_frame [of \<open>StructName s\<close> \<open>StructDescription s\<close> \<open>w @ nl\<close>]
  by (simp only: Output_field_fold map_map o_def frame_simps)

lemma Output_struct_fold:
  \<open>fold (\<lambda>k. Output_struct (g k)) ks w = w @ concat (map (\<lambda>k. Output_struct (g k) []) ks)\<close>
proof (rule fold_frame1)
  fix x w
  show \<open>Output_struct (g x) w = w @ Output_struct (g x) []\<close>
    using Output_struct_text [of \<open>g x\<close> w] Output_struct_text [of \<open>g x\<close> \<open>[]\<close>]
    by (simp only: append_Nil)
qed

lemma Output_sections:
  \<open>Output rangeOrder w g pkg =
     w @
     ''// Code generated by schema-generate. DO NOT EDIT.'' @ nl @
     nl @
     ''package '' @ cleanPackageName pkg @ nl @
     (if collectedImports g \<noteq> {} then
        nl @ ''import ('' @ nl @
        concat (map (\<lambda>k. ''    "'' @ k @ ''"'' @ nl) (rangeOrder (collectedImports g))) @
        '')'' @ nl
      else []) @
     concat (map (\<lambda>a. Output_alias a []) (fieldsInOrder (Aliases g))) @
     concat (map (\<lambda>s. Output_struct s []) (structsInOrder (Structs g))) @
     concat (map (\<lambda>s. marshalRoutine s @ unmarshalRoutine s @ toMapRoutine s)
       (filter GenerateCode (structsInOrder (Structs g))))\<close>
  unfolding Output_def Let_def split_def collectedImports_def fieldsInOrder_def
    structsInOrder_def
  by (simp only: Output_code_fold Output_import_fold Output_alias_fold Output_struct_fold
        map_map o_def frame_simps cong: if_cong)

subsection \<open>Zero-value resolver\<close>

text \<open>
  C7. The resolver is a function of the descriptor alone and has a result for every
  descriptor. A descriptor that starts with \<^verbatim>\<open>*\<close> or \<^verbatim>\<open>[]\<close> resolves to
  \<^verbatim>\<open>("nil", true)\<close>; \<^verbatim>\<open>bool\<close> to \<^verbatim>\<open>("false", true)\<close>; \<^verbatim>\<open>int\<close> and
  \<^verbatim>\<open>float64\<close> to \<^verbatim>\<open>("0", true)\<close>; \<^verbatim>\<open>string\<close> to the two-character
  literal of the empty string; \<^verbatim>\<open>nil\<close> and \<^verbatim>\<open>array\<close> to \<^verbatim>\<open>("nil", true)\<close>;
  every other descriptor to \<^verbatim>\<open>("", false)\<close>.
\<close>

theorem getZeroValueCheck_table:
  \<open>((prefix ''*'' t \<or> prefix ''[]'' t) \<longrightarrow> getZeroValueCheck t = (''nil'', True)) \<and>
   getZeroValueCheck ''bool'' = (''false'', True) \<and>
   getZeroValueCheck ''int'' = (''0'', True) \<and>
   getZeroValueCheck ''float64'' = (''0'', True) \<and>
   getZeroValueCheck ''string'' = ([CHR 0x22, CHR 0x22], True) \<and>
   getZeroValueCheck ''nil'' = (''nil'', True) \<and>
   getZeroValueCheck ''array'' = (''nil'', True) \<and>
   ((\<not> prefix ''*'' u \<and> \<not> prefix ''[]'' u \<and>
     u \<notin> {''bool'', ''int'', ''float64'', ''string'', ''nil'', ''array''}) \<longrightarrow>
      getZeroValueCheck u = ('''', False))\<close>
  by (simp add: getZeroValueCheck_def HasPrefix_def)

theorem getZeroValueCheck_table_witness:
  \<open>(prefix ''*'' ''*Address'' \<or> prefix ''[]'' ''*Address'') \<and>
   getZeroValueCheck ''*Address'' = (''nil'', True) \<and>
   (\<not> prefix ''*'' ''Address'' \<and> \<not> prefix ''[]'' ''Address'' \<and>
     ''Address'' \<notin> {''bool'', ''int'', ''float64'', ''string'', ''nil'', ''array''}) \<and>
   getZeroValueCheck ''Address'' = ('''', False)\<close>
  using getZeroValueCheck_table [of \<open>''*Address''\<close> \<open>''Address''\<close>] by simp

subsection \<open>Sorted iteration visits the entries of a map, each once\<close>

lemma fieldAt_entry:
  assumes \<open>distinct (map fst m)\<close> \<open>p \<in> set m\<close>
  shows \<open>fieldAt m (fst p) = snd p\<close>
proof -
  have \<open>map_of m (fst p) = Some (snd p)\<close>
    using assms by (cases p) (simp add: map_of_is_SomeI)
  then show ?thesis by (simp add: fieldAt_def)
qed

lemma fieldsInOrder_sorted_entries:
  assumes \<open>wellformed m\<close>
  shows \<open>fieldsInOrder m = map snd (sort_key fst m)\<close>
proof -
  have d: \<open>distinct (map fst m)\<close>
    using assms by (simp add: wellformed_def)
  have i: \<open>map fst (insort_key fst x xs) = insort (fst x) (map fst xs)\<close>
    for x :: \<open>string \<times> Field\<close> and xs
    by (induction xs) simp_all
  have \<open>sort (map fst m) = map fst (sort_key fst m)\<close>
    by (induction m) (simp_all add: sort_key_def i)
  then have \<open>fieldsInOrder m = map (\<lambda>p. fieldAt m (fst p)) (sort_key fst m)\<close>
    by (simp add: fieldsInOrder_def getOrderedFieldNames_def o_def)
  also have \<open>\<dots> = map snd (sort_key fst m)\<close>
    by (rule map_cong) (simp_all add: fieldAt_entry [OF d])
  finally show ?thesis .
qed

text \<open>
  The sorted keys and the lookups depend on the entries of a well-formed map only, not on
  the order in which they are listed.
\<close>

lemma getOrderedFieldNames_order_independent:
  assumes \<open>wellformed m1\<close> and \<open>wellformed m2\<close> and \<open>set m1 = set m2\<close>
  shows \<open>getOrderedFieldNames m1 = getOrderedFieldNames m2\<close>
proof -
  have \<open>set (map fst m1) = set (map fst m2)\<close>
    using assms(3) by simp
  moreover have \<open>sort (map fst m) = sorted_list_of_set (set (map fst m))\<close>
    if \<open>wellformed m\<close> for m :: \<open>Field gomap\<close>
    using that sorted_list_of_set_sort_remdups [of \<open>map fst m\<close>]
    by (simp only: wellformed_def distinct_remdups_id)
  ultimately show ?thesis
    using assms(1,2) by (simp only: getOrderedFieldNames_def)
qed

lemma fieldAt_order_independent:
  assumes \<open>wellformed m1\<close> and \<open>wellformed m2\<close> and \<open>set m1 = set m2\<close>
  shows \<open>fieldAt m1 = fieldAt m2\<close>
proof -
  have \<open>map_of m1 = map_of m2\<close>
    using assms by (simp add: wellformed_def map_of_inject_set)
  then show ?thesis
    by (simp add: fieldAt_def fun_eq_iff)
qed

subsection \<open>Map-view emitter\<close>

text \<open>
  C9. The \<^verbatim>\<open>ToMap\<close> routine emitted for a record is its opening line, the creation
  of the result, one assignment \<^verbatim>\<open>m["<MarshalName>"] = strct.<Name>\<close> per field in
  the order of the sorted field keys, and the return. The assignment is written for every
  field, whatever its \<^verbatim>\<open>MarshalName\<close>, so a field whose \<^verbatim>\<open>MarshalName\<close> is
  \<^verbatim>\<open>-\<close> is assigned under the key \<^verbatim>\<open>-\<close>. For a well-formed field map the fields
  visited are the values of the map's entries sorted by key, each once. The text does not
  depend on \<^verbatim>\<open>AdditionalType\<close>: there is no entry for additional properties.
\<close>

theorem emitToMapCode_entries:
  \<open>emitToMapCode w s =
     w @
     nl @
     ''func (strct *'' @ StructName s @ '') ToMap() map[string]any {'' @ nl @
     ''    m := make(map[string]any)'' @ nl @
     concat (map (\<lambda>f. ''    m["'' @ MarshalName f @ ''"] = strct.'' @ Name f @ nl)
       (fieldsInOrder (Fields s))) @
     ''    return m'' @ nl @
     ''}'' @ nl \<and>
   (wellformed (Fields s) \<longrightarrow> fieldsInOrder (Fields s) = map snd (sort_key fst (Fields s))) \<and>
   emitToMapCode w (s\<lparr>AdditionalType := a\<rparr>) = emitToMapCode w s\<close>
proof (intro conjI impI)
  show \<open>emitToMapCode w s =
     w @
     nl @
     ''func (strct *'' @ StructName s @ '') ToMap() map[string]any {'' @ nl @
     ''    m := make(map[string]any)'' @ nl @
     concat (map (\<lambda>f. ''    m["'' @ MarshalName f @ ''"] = strct.'' @ Name f @ nl)
       (fieldsInOrder (Fields s))) @
     ''    return m'' @ nl @
     ''}'' @ nl\<close>
    unfolding emitToMapCode_def Let_def
    apply (simp only: emitToMapCode_fold)
    apply (simp only: fieldsInOrder_def emitToMapCode_entry_def map_map o_def frame_simps)
    done
next
  assume \<open>wellformed (Fields s)\<close>
  then show \<open>fieldsInOrder (Fields s) = map snd (sort_key fst (Fields s))\<close>
    by (rule fieldsInOrder_sorted_entries)
next
  show \<open>emitToMapCode w (s\<lparr>AdditionalType := a\<rparr>) = emitToMapCode w s\<close>
    by (simp add: emitToMapCode_def)
qed

theorem emitToMapCode_entries_witness:
  \<open>wellformed (Fields s9) \<and>
   fieldsInOrder (Fields s9) =
     [exField ''Age'' ''age'' ''int'' ''int'' False False,
      exField ''Secret'' ''-'' ''string'' ''string'' False False] \<and>
   emitToMapCode [] s9 =
     nl @
     ''func (strct *T) ToMap() map[string]any {'' @ nl @
     ''    m := make(map[string]any)'' @ nl @
     ''    m["age"] = strct.Age'' @ nl @
     ''    m["-"] = strct.Secret'' @ nl @
     ''    return m'' @ nl @
     ''}'' @ nl\<close>
proof -
  have w: \<open>wellformed (Fields s9)\<close>
    by (simp add: s9_def exStruct_def wellformed_def)
  have f: \<open>fieldsInOrder (Fields s9) =
     [exField ''Age'' ''age'' ''int'' ''int'' False False,
      exField ''Secret'' ''-'' ''string'' ''string'' False False]\<close>
    using emitToMapCode_entries [of \<open>[]\<close> s9 \<open>[]\<close>] w
    by (simp add: s9_def exStruct_def)
  show ?thesis
    using emitToMapCode_entries [of \<open>[]\<close> s9 \<open>[]\<close>] w
    by (simp add: f) (simp add: s9_def exStruct_def exField_def)
qed

subsection \<open>Orchestrator: the layout of the output\<close>


subsection \<open>Unmarshal emitter: the received flags\<close>

lemma emitUnmarshalCode_flag_text:
  \<open>emitUnmarshalCode_flag f [] =
     (if Required f then ''    '' @ UnmarshalName f @ ''Received := false'' @ nl else [])\<close>
  unfolding emitUnmarshalCode_flag_def by (simp only: append_Nil)

lemma emitUnmarshalCode_case_text:
  \<open>fst (emitUnmarshalCode_case f ([], {})) =
     (if UnmarshalName f \<noteq> ''-'' then
        fst (emitUnmarshalFieldCode [] f {}) @
        (if Required f then ''            '' @ UnmarshalName f @ ''Received = true'' @ nl
         else [])
      else [])\<close>
proof (cases \<open>UnmarshalName f = ''-''\<close>)
  case True
  then show ?thesis
    unfolding emitUnmarshalCode_case_def
    by (simp only: prod.case simp_thms if_True if_False fst_conv)
next
  case False
  obtain t i where e: \<open>emitUnmarshalFieldCode [] f {} = (t, i)\<close>
    by (cases \<open>emitUnmarshalFieldCode [] f {}\<close>)
  show ?thesis
    unfolding emitUnmarshalCode_case_def Let_def
    by (simp only: prod.case False if_False not_False_eq_True if_True e frame_simps
          cong: if_cong)
qed

lemma emitUnmarshalCode_check_text:
  \<open>fst (emitUnmarshalCode_check f ([], {})) =
     (if Required f then
        ''    // check if '' @ UnmarshalName f @ '' (a required property) was received'' @ nl @
        ''    if !'' @ UnmarshalName f @ ''Received {'' @ nl @
        ''        return errors.New("'' @ bsl @ ''"'' @ UnmarshalName f @ bsl @ ''" is required but was not present")'' @ nl @
        ''    }'' @ nl
      else [])\<close>
  unfolding emitUnmarshalCode_check_def
  by (simp only: prod.case frame_simps cong: if_cong)



subsection \<open>Unmarshal emitter: no default case without an additional type\<close>

lemma Struct_AdditionalType_update:
  \<open>StructName (s\<lparr>AdditionalType := a\<rparr>) = StructName s\<close>
  \<open>Fields (s\<lparr>AdditionalType := a\<rparr>) = Fields s\<close>
  \<open>AdditionalType (s\<lparr>AdditionalType := a\<rparr>) = a\<close>
  by simp_all

lemma unmarshalBeforeDefault_AdditionalType:
  \<open>unmarshalBeforeDefault (s\<lparr>AdditionalType := a\<rparr>) = unmarshalBeforeDefault s\<close>
  unfolding unmarshalBeforeDefault_def by (simp only: Struct_AdditionalType_update)

lemma unmarshalAfterDefault_AdditionalType:
  \<open>unmarshalAfterDefault (s\<lparr>AdditionalType := a\<rparr>) = unmarshalAfterDefault s\<close>
  unfolding unmarshalAfterDefault_def by (simp only: Struct_AdditionalType_update)

text \<open>
  C10. For a record whose \<^verbatim>\<open>AdditionalType\<close> is the empty string, the emitted
  unmarshal routine is the text up to the last dispatch case directly followed by the end
  of the switch: the switch has no default case. The routine emitted for the same record
  with \<^verbatim>\<open>AdditionalType\<close> \<^verbatim>\<open>"false"\<close> is the same text with the two lines
  \<^verbatim>\<open>default:\<close> and \<^verbatim>\<open>continue\<close> between the last case and the end of the switch,
  and nothing else changed; that default case only moves on to the next key, which is what
  a switch with no matching case does. Both routines end in \<^verbatim>\<open>return nil\<close> after the
  checks of the required fields.
\<close>

theorem emitUnmarshalCode_no_default:
  assumes \<open>AdditionalType s = ''''\<close>
  shows \<open>fst (emitUnmarshalCode w s I) =
           w @ unmarshalBeforeDefault s @ unmarshalAfterDefault s \<and>
         fst (emitUnmarshalCode w (s\<lparr>AdditionalType := ''false''\<rparr>) I) =
           w @ unmarshalBeforeDefault s @
           ''        default:'' @ nl @
           ''            continue'' @ nl @
           unmarshalAfterDefault s \<and>
         prefix (''        }}'' @ nl @ ''    }'' @ nl) (unmarshalAfterDefault s) \<and>
         suffix (''    return nil'' @ nl @ ''}'' @ nl) (unmarshalAfterDefault s)\<close>
proof (intro conjI)
  have \<open>fst (emitUnmarshalCode_additional s ([], {})) = []\<close>
    unfolding emitUnmarshalCode_additional_def
    by (simp only: assms prod.case simp_thms if_False fst_conv)
  then show \<open>fst (emitUnmarshalCode w s I) =
      w @ unmarshalBeforeDefault s @ unmarshalAfterDefault s\<close>
    using emitUnmarshalCode_sections [of w s I] by (simp only: append_Nil)
next
  have n: \<open>''false'' \<noteq> ([] :: string)\<close>
    by simp
  have \<open>fst (emitUnmarshalCode_additional (s\<lparr>AdditionalType := ''false''\<rparr>) ([], {})) =
      ''        default:'' @ nl @ ''            continue'' @ nl\<close>
    unfolding emitUnmarshalCode_additional_def
    by (simp only: Struct_AdditionalType_update prod.case n simp_thms if_True fst_conv
          append_Nil)
  then show \<open>fst (emitUnmarshalCode w (s\<lparr>AdditionalType := ''false''\<rparr>) I) =
      w @ unmarshalBeforeDefault s @
      ''        default:'' @ nl @
      ''            continue'' @ nl @
      unmarshalAfterDefault s\<close>
    using emitUnmarshalCode_sections [of w \<open>s\<lparr>AdditionalType := ''false''\<rparr>\<close> I]
    by (simp only: unmarshalBeforeDefault_AdditionalType unmarshalAfterDefault_AdditionalType
          append_assoc)
next
  show \<open>prefix (''        }}'' @ nl @ ''    }'' @ nl) (unmarshalAfterDefault s)\<close>
    unfolding unmarshalAfterDefault_def
    by (rule prefixI [where zs = \<open>concat (map (\<lambda>f. fst (emitUnmarshalCode_check f ([], {})))
          (fieldsInOrder (Fields s))) @ ''    return nil'' @ nl @ ''}'' @ nl\<close>])
       (simp only: append_assoc)
next
  show \<open>suffix (''    return nil'' @ nl @ ''}'' @ nl) (unmarshalAfterDefault s)\<close>
    unfolding unmarshalAfterDefault_def
    by (rule suffixI [where zs = \<open>''        }}'' @ nl @ ''    }'' @ nl @
          concat (map (\<lambda>f. fst (emitUnmarshalCode_check f ([], {})))
            (fieldsInOrder (Fields s)))\<close>])
       (simp only: append_assoc)
qed

theorem emitUnmarshalCode_no_default_witness:
  \<open>AdditionalType (exStruct []) = '''' \<and>
   fst (emitUnmarshalCode [] (exStruct []) {}) =
     nl @
     ''func (strct *T) UnmarshalJSON(b []byte) error {'' @ nl @
     ''    var jsonMap map[string]json.RawMessage'' @ nl @
     ''    if err := json.Unmarshal(b, &jsonMap); err != nil {'' @ nl @
     ''        return err'' @ nl @
     ''    }'' @
     nl @
     ''    // parse all the defined properties'' @ nl @
     ''    for k, v := range jsonMap {'' @ nl @
     ''        if v != nil {'' @ nl @
     tab @ tab @ tab @ ''switch k {'' @ nl @
     ''        }}'' @ nl @
     ''    }'' @ nl @
     ''    return nil'' @ nl @
     ''}'' @ nl \<and>
   fst (emitUnmarshalCode [] ((exStruct [])\<lparr>AdditionalType := ''false''\<rparr>) {}) =
     nl @
     ''func (strct *T) UnmarshalJSON(b []byte) error {'' @ nl @
     ''    var jsonMap map[string]json.RawMessage'' @ nl @
     ''    if err := json.Unmarshal(b, &jsonMap); err != nil {'' @ nl @
     ''        return err'' @ nl @
     ''    }'' @
     nl @
     ''    // parse all the defined properties'' @ nl @
     ''    for k, v := range jsonMap {'' @ nl @
     ''        if v != nil {'' @ nl @
     tab @ tab @ tab @ ''switch k {'' @ nl @
     ''        default:'' @ nl @
     ''            continue'' @ nl @
     ''        }}'' @ nl @
     ''    }'' @ nl @
     ''    return nil'' @ nl @
     ''}'' @ nl\<close>
proof -
  have a: \<open>AdditionalType (exStruct []) = ''''\<close>
    by (simp add: exStruct_def)
  have b: \<open>unmarshalBeforeDefault (exStruct []) =
     nl @
     ''func (strct *T) UnmarshalJSON(b []byte) error {'' @ nl @
     ''    var jsonMap map[string]json.RawMessage'' @ nl @
     ''    if err := json.Unmarshal(b, &jsonMap); err != nil {'' @ nl @
     ''        return err'' @ nl @
     ''    }'' @
     nl @
     ''    // parse all the defined properties'' @ nl @
     ''    for k, v := range jsonMap {'' @ nl @
     ''        if v != nil {'' @ nl @
     tab @ tab @ tab @ ''switch k {'' @ nl\<close>
    by (simp add: unmarshalBeforeDefault_def exStruct_def fieldsInOrder_def
          getOrderedFieldNames_def)
  have c: \<open>unmarshalAfterDefault (exStruct []) =
     ''        }}'' @ nl @
     ''    }'' @ nl @
     ''    return nil'' @ nl @
     ''}'' @ nl\<close>
    by (simp add: unmarshalAfterDefault_def exStruct_def fieldsInOrder_def
          getOrderedFieldNames_def)
  show ?thesis
    using emitUnmarshalCode_no_default [OF a, of \<open>[]\<close> \<open>{}\<close>] a
    by (simp add: b c)
qed

subsection \<open>Unmarshal emitter: unsupported pairs of types\<close>

lemma getOrderedFieldNames_remove:
  \<open>getOrderedFieldNames (filter (\<lambda>p. fst p \<noteq> k) m) =
     filter (\<lambda>k'. k' \<noteq> k) (getOrderedFieldNames m)\<close>
proof -
  have \<open>map fst (filter (\<lambda>p. fst p \<noteq> k) m) = filter (\<lambda>k'. k' \<noteq> k) (map fst m)\<close>
    by (simp add: filter_map o_def)
  then show ?thesis
    by (simp add: getOrderedFieldNames_def filter_sort)
qed

lemma fieldAt_remove:
  assumes \<open>k' \<noteq> k\<close>
  shows \<open>fieldAt (filter (\<lambda>p. fst p \<noteq> k) m) k' = fieldAt m k'\<close>
proof -
  have \<open>map_of (filter (\<lambda>p. fst p \<noteq> k) m) k' = map_of m k'\<close>
    using assms by (induction m) auto
  then show ?thesis by (simp add: fieldAt_def)
qed

lemma fold_remove_neutral:
  assumes \<open>\<And>st. step (g k) st = st\<close> and \<open>\<And>k'. k' \<noteq> k \<Longrightarrow> g' k' = g k'\<close>
  shows \<open>fold (\<lambda>k'. step (g' k')) (filter (\<lambda>k'. k' \<noteq> k) ks) st = fold (\<lambda>k'. step (g k')) ks st\<close>
  by (induction ks arbitrary: st) (simp_all add: assms)

lemma emitUnmarshalFieldCode_unsupported_neutral:
  assumes \<open>MarshalType f \<noteq> UnmarshalType f\<close>
    and \<open>\<not> (UnmarshalType f = ''string'' \<and> MarshalType f = ''int'')\<close>
    and \<open>\<not> (UnmarshalType f = ''int'' \<and> MarshalType f = ''string'')\<close>
  shows \<open>emitUnmarshalFieldCode w f I = (w, I)\<close>
  using assms by (auto simp add: emitUnmarshalFieldCode_def)

text \<open>
  C6, as the code has it. For a field whose \<^verbatim>\<open>MarshalType\<close> and \<^verbatim>\<open>UnmarshalType\<close>
  differ and are neither of the two supported pairs, \<^verbatim>\<open>emitUnmarshalFieldCode\<close> writes
  nothing and registers no facility: the field gets no dispatch case. When the field is
  moreover not required, the emitted unmarshal routine (and the facility set) of a record
  that holds it under the key \<open>k\<close> is the one of the record without that entry: the
  routine contains no code for the field.
\<close>

theorem emitUnmarshalFieldCode_unsupported:
  assumes \<open>MarshalType f \<noteq> UnmarshalType f\<close>
    and \<open>\<not> (UnmarshalType f = ''string'' \<and> MarshalType f = ''int'')\<close>
    and \<open>\<not> (UnmarshalType f = ''int'' \<and> MarshalType f = ''string'')\<close>
  shows \<open>emitUnmarshalFieldCode w f I = (w, I) \<and>
    (\<not> Required f \<and> fieldAt (Fields s) k = f \<longrightarrow>
       emitUnmarshalCode w (s\<lparr>Fields := filter (\<lambda>p. fst p \<noteq> k) (Fields s)\<rparr>) I =
       emitUnmarshalCode w s I)\<close>
proof (intro conjI impI)
  show \<open>emitUnmarshalFieldCode w f I = (w, I)\<close>
    using assms by (rule emitUnmarshalFieldCode_unsupported_neutral)
next
  assume a: \<open>\<not> Required f \<and> fieldAt (Fields s) k = f\<close>
  define m where \<open>m = Fields s\<close>
  define m' where \<open>m' = filter (\<lambda>p. fst p \<noteq> k) m\<close>
  have nr: \<open>\<not> Required (fieldAt m k)\<close> and fk: \<open>fieldAt m k = f\<close>
    using a by (simp_all add: m_def)
  have keys: \<open>getOrderedFieldNames m' = filter (\<lambda>k'. k' \<noteq> k) (getOrderedFieldNames m)\<close>
    unfolding m'_def by (rule getOrderedFieldNames_remove)
  have same: \<open>fieldAt m' k' = fieldAt m k'\<close> if \<open>k' \<noteq> k\<close> for k'
    unfolding m'_def using that by (rule fieldAt_remove)
  have flag0: \<open>emitUnmarshalCode_flag (fieldAt m k) st = st\<close> for st
    unfolding emitUnmarshalCode_flag_def by (simp only: nr if_False)
  have case0: \<open>emitUnmarshalCode_case (fieldAt m k) st = st\<close> for st
  proof (cases st)
    case (Pair w' I')
    have \<open>emitUnmarshalFieldCode w' (fieldAt m k) I' = (w', I')\<close>
      unfolding fk using assms by (rule emitUnmarshalFieldCode_unsupported_neutral)
    then show ?thesis
      unfolding emitUnmarshalCode_case_def Let_def Pair
      by (simp only: prod.case nr if_False if_cancel)
  qed
  have check0: \<open>emitUnmarshalCode_check (fieldAt m k) st = st\<close> for st
    unfolding emitUnmarshalCode_check_def
    by (cases st) (simp only: prod.case nr if_False)
  have flags: \<open>fold (\<lambda>k'. emitUnmarshalCode_flag (fieldAt m' k')) (getOrderedFieldNames m') st =
      fold (\<lambda>k'. emitUnmarshalCode_flag (fieldAt m k')) (getOrderedFieldNames m) st\<close> for st
    unfolding keys by (rule fold_remove_neutral) (simp_all add: flag0 same)
  have cases: \<open>fold (\<lambda>k'. emitUnmarshalCode_case (fieldAt m' k')) (getOrderedFieldNames m') st =
      fold (\<lambda>k'. emitUnmarshalCode_case (fieldAt m k')) (getOrderedFieldNames m) st\<close> for st
    unfolding keys by (rule fold_remove_neutral) (simp_all add: case0 same)
  have checks: \<open>fold (\<lambda>k'. emitUnmarshalCode_check (fieldAt m' k')) (getOrderedFieldNames m') st =
      fold (\<lambda>k'. emitUnmarshalCode_check (fieldAt m k')) (getOrderedFieldNames m) st\<close> for st
    unfolding keys by (rule fold_remove_neutral) (simp_all add: check0 same)
  have upd: \<open>StructName (s\<lparr>Fields := m'\<rparr>) = StructName s\<close>
    \<open>Fields (s\<lparr>Fields := m'\<rparr>) = m'\<close>
    \<open>AdditionalType (s\<lparr>Fields := m'\<rparr>) = AdditionalType s\<close>
    by simp_all
  have \<open>emitUnmarshalCode w (s\<lparr>Fields := m'\<rparr>) I = emitUnmarshalCode w s I\<close>
    unfolding emitUnmarshalCode_def emitUnmarshalCode_additional_def
    by (simp only: upd flags cases checks m_def [symmetric])
  then show \<open>emitUnmarshalCode w (s\<lparr>Fields := filter (\<lambda>p. fst p \<noteq> k) (Fields s)\<rparr>) I =
      emitUnmarshalCode w s I\<close>
    by (simp only: m'_def m_def)
qed

theorem emitUnmarshalFieldCode_unsupported_witness:
  \<open>MarshalType (exField ''Flag'' ''flag'' ''bool'' ''string'' False False) \<noteq>
     UnmarshalType (exField ''Flag'' ''flag'' ''bool'' ''string'' False False) \<and>
   \<not> (UnmarshalType (exField ''Flag'' ''flag'' ''bool'' ''string'' False False) = ''string'' \<and>
      MarshalType (exField ''Flag'' ''flag'' ''bool'' ''string'' False False) = ''int'') \<and>
   \<not> (UnmarshalType (exField ''Flag'' ''flag'' ''bool'' ''string'' False False) = ''int'' \<and>
      MarshalType (exField ''Flag'' ''flag'' ''bool'' ''string'' False False) = ''string'') \<and>
   emitUnmarshalFieldCode [] (exField ''Flag'' ''flag'' ''bool'' ''string'' False False) {} =
     ([], {}) \<and>
   \<not> Required (exField ''Flag'' ''flag'' ''bool'' ''string'' False False) \<and>
   fieldAt (Fields s6w) ''Flag'' = exField ''Flag'' ''flag'' ''bool'' ''string'' False False \<and>
   emitUnmarshalCode [] (s6w\<lparr>Fields := filter (\<lambda>p. fst p \<noteq> ''Flag'') (Fields s6w)\<rparr>) {} =
     emitUnmarshalCode [] s6w {}\<close>
proof -
  have h: \<open>MarshalType (exField ''Flag'' ''flag'' ''bool'' ''string'' False False) \<noteq>
      UnmarshalType (exField ''Flag'' ''flag'' ''bool'' ''string'' False False)\<close>
    \<open>\<not> (UnmarshalType (exField ''Flag'' ''flag'' ''bool'' ''string'' False False) = ''string'' \<and>
      MarshalType (exField ''Flag'' ''flag'' ''bool'' ''string'' False False) = ''int'')\<close>
    \<open>\<not> (UnmarshalType (exField ''Flag'' ''flag'' ''bool'' ''string'' False False) = ''int'' \<and>
      MarshalType (exField ''Flag'' ''flag'' ''bool'' ''string'' False False) = ''string'')\<close>
    by (simp_all add: exField_def)
  have r: \<open>\<not> Required (exField ''Flag'' ''flag'' ''bool'' ''string'' False False)\<close>
    by (simp add: exField_def)
  have k: \<open>fieldAt (Fields s6w) ''Flag'' = exField ''Flag'' ''flag'' ''bool'' ''string'' False False\<close>
    by (simp add: s6w_def exStruct_def fieldAt_def)
  show ?thesis
    using emitUnmarshalFieldCode_unsupported [OF h, of \<open>[]\<close> \<open>{}\<close> s6w \<open>''Flag''\<close>] h r k
    by (simp only: simp_thms)
qed

text \<open>
  C6 as stated fails for a required field: no case is written for it, yet the
  routine declares its flag, sets it (without a case of its own) and checks it, so the
  routine is not the one of the record without the field.
\<close>

theorem emitUnmarshalCode_unsupported_required:
  \<open>MarshalType (fieldAt (Fields s6) ''Flag'') \<noteq> UnmarshalType (fieldAt (Fields s6) ''Flag'') \<and>
   \<not> (UnmarshalType (fieldAt (Fields s6) ''Flag'') = ''string'' \<and>
      MarshalType (fieldAt (Fields s6) ''Flag'') = ''int'') \<and>
   \<not> (UnmarshalType (fieldAt (Fields s6) ''Flag'') = ''int'' \<and>
      MarshalType (fieldAt (Fields s6) ''Flag'') = ''string'') \<and>
   unmarshalRoutine s6 =
     nl @
     ''func (strct *T) UnmarshalJSON(b []byte) error {'' @ nl @
     ''    flagReceived := false'' @ nl @
     ''    var jsonMap map[string]json.RawMessage'' @ nl @
     ''    if err := json.Unmarshal(b, &jsonMap); err != nil {'' @ nl @
     ''        return err'' @ nl @
     ''    }'' @
     nl @
     ''    // parse all the defined properties'' @ nl @
     ''    for k, v := range jsonMap {'' @ nl @
     ''        if v != nil {'' @ nl @
     tab @ tab @ tab @ ''switch k {'' @ nl @
     ''            flagReceived = true'' @ nl @
     ''        }}'' @ nl @
     ''    }'' @ nl @
     ''    // check if flag (a required property) was received'' @ nl @
     ''    if !flagReceived {'' @ nl @
     ''        return errors.New("'' @ bsl @ ''"flag'' @ bsl @ ''" is required but was not present")'' @ nl @
     ''    }'' @ nl @
     ''    return nil'' @ nl @
     ''}'' @ nl \<and>
   unmarshalRoutine s6 \<noteq>
     unmarshalRoutine (s6\<lparr>Fields := filter (\<lambda>p. fst p \<noteq> ''Flag'') (Fields s6)\<rparr>)\<close>
proof -
  have k: \<open>fieldAt (Fields s6) ''Flag'' = exField ''Flag'' ''flag'' ''bool'' ''string'' True False\<close>
    by (simp add: s6_def exStruct_def fieldAt_def)
  have f: \<open>fieldsInOrder (Fields s6) = [exField ''Flag'' ''flag'' ''bool'' ''string'' True False]\<close>
    by (simp add: s6_def exStruct_def fieldsInOrder_def getOrderedFieldNames_def fieldAt_def)
  have a: \<open>fst (emitUnmarshalCode_additional s6 ([], {})) = []\<close>
    by (simp add: emitUnmarshalCode_additional_def s6_def exStruct_def)
  have n: \<open>StructName s6 = ''T''\<close>
    by (simp add: s6_def exStruct_def)
  have x: \<open>Required (exField ''Flag'' ''flag'' ''bool'' ''string'' True False)\<close>
    \<open>UnmarshalName (exField ''Flag'' ''flag'' ''bool'' ''string'' True False) = ''flag''\<close>
    \<open>MarshalType (exField ''Flag'' ''flag'' ''bool'' ''string'' True False) = ''bool''\<close>
    \<open>UnmarshalType (exField ''Flag'' ''flag'' ''bool'' ''string'' True False) = ''string''\<close>
    by (simp_all add: exField_def)
  have e: \<open>emitUnmarshalFieldCode [] (exField ''Flag'' ''flag'' ''bool'' ''string'' True False) {} =
      ([], {})\<close>
    by (rule emitUnmarshalFieldCode_unsupported_neutral) (simp_all add: x)
  have t: \<open>unmarshalRoutine s6 =
     nl @
     ''func (strct *T) UnmarshalJSON(b []byte) error {'' @ nl @
     ''    flagReceived := false'' @ nl @
     ''    var jsonMap map[string]json.RawMessage'' @ nl @
     ''    if err := json.Unmarshal(b, &jsonMap); err != nil {'' @ nl @
     ''        return err'' @ nl @
     ''    }'' @
     nl @
     ''    // parse all the defined properties'' @ nl @
     ''    for k, v := range jsonMap {'' @ nl @
     ''        if v != nil {'' @ nl @
     tab @ tab @ tab @ ''switch k {'' @ nl @
     ''            flagReceived = true'' @ nl @
     ''        }}'' @ nl @
     ''    }'' @ nl @
     ''    // check if flag (a required property) was received'' @ nl @
     ''    if !flagReceived {'' @ nl @
     ''        return errors.New("'' @ bsl @ ''"flag'' @ bsl @ ''" is required but was not present")'' @ nl @
     ''    }'' @ nl @
     ''    return nil'' @ nl @
     ''}'' @ nl\<close>
    by (simp add: unmarshalRoutine_def emitUnmarshalCode_sections unmarshalBeforeDefault_def
          unmarshalAfterDefault_def emitUnmarshalCode_flag_text emitUnmarshalCode_case_text
          emitUnmarshalCode_check_text f a n x e)
  have f': \<open>fieldsInOrder (filter (\<lambda>p. fst p \<noteq> ''Flag'') (Fields s6)) = []\<close>
    by (simp add: s6_def exStruct_def fieldsInOrder_def getOrderedFieldNames_def)
  have a': \<open>fst (emitUnmarshalCode_additional
      (s6\<lparr>Fields := filter (\<lambda>p. fst p \<noteq> ''Flag'') (Fields s6)\<rparr>) ([], {})) = []\<close>
    by (simp add: emitUnmarshalCode_additional_def s6_def exStruct_def)
  have n': \<open>StructName (s6\<lparr>Fields := filter (\<lambda>p. fst p \<noteq> ''Flag'') (Fields s6)\<rparr>) = ''T''\<close>
    by (simp add: s6_def exStruct_def)
  have t': \<open>unmarshalRoutine (s6\<lparr>Fields := filter (\<lambda>p. fst p \<noteq> ''Flag'') (Fields s6)\<rparr>) =
     nl @
     ''func (strct *T) UnmarshalJSON(b []byte) error {'' @ nl @
     ''    var jsonMap map[string]json.RawMessage'' @ nl @
     ''    if err := json.Unmarshal(b, &jsonMap); err != nil {'' @ nl @
     ''        return err'' @ nl @
     ''    }'' @
     nl @
     ''    // parse all the defined properties'' @ nl @
     ''    for k, v := range jsonMap {'' @ nl @
     ''        if v != nil {'' @ nl @
     tab @ tab @ tab @ ''switch k {'' @ nl @
     ''        }}'' @ nl @
     ''    }'' @ nl @
     ''    return nil'' @ nl @
     ''}'' @ nl\<close>
    by (simp add: unmarshalRoutine_def emitUnmarshalCode_sections unmarshalBeforeDefault_def
          unmarshalAfterDefault_def f' a' n')
  have d: \<open>unmarshalRoutine s6 \<noteq>
      unmarshalRoutine (s6\<lparr>Fields := filter (\<lambda>p. fst p \<noteq> ''Flag'') (Fields s6)\<rparr>)\<close>
    unfolding t t' by simp
  show ?thesis
    using t d by (simp only: k x simp_thms) simp
qed

subsection \<open>Marshal emitter: required fields\<close>

lemma emitMarshalCode_imports:
  \<open>snd (emitMarshalCode w s I) =
     I \<union> (\<Union>((\<lambda>f. snd (emitMarshalCode_field f ([], {}))) ` set (fieldsInOrder (Fields s))) \<union>
       (snd (emitMarshalCode_additional s ([], {})) \<union> {''strings''}))\<close>
proof (cases \<open>length (Fields s) > 0\<close>)
  case True
  show ?thesis
    unfolding emitMarshalCode_def emitMarshalCode_additional_def fieldsInOrder_def Let_def
      split_def
    by (simp only: True if_True emitMarshalCode_fold set_map image_image frame_simps
          cong: if_cong)
next
  case False
  then have e: \<open>getOrderedFieldNames (Fields s) = []\<close>
    by (simp add: getOrderedFieldNames_def)
  show ?thesis
    unfolding emitMarshalCode_def emitMarshalCode_additional_def fieldsInOrder_def Let_def
      split_def
    by (simp only: False if_False e list.map list.set image_empty Union_empty frame_simps
          cong: if_cong)
qed







subsection \<open>Marshal emitter: omit-empty fields\<close>

lemma emitMarshalCode_serialize_omit_literal:
  assumes \<open>OmitEmpty f\<close> and \<open>getZeroValueCheck (MarshalType f) = (z, True)\<close>
  shows \<open>emitMarshalCode_serialize f ([], {}) =
     (tab @ ''// omit empty'' @ nl @
      tab @ ''if strct.'' @ Name f @ '' != '' @ z @ '' {'' @ nl @
      ''  // Marshal the "'' @ MarshalName f @ ''" field'' @ nl @
      tab @ ''if tmp, err := json.Marshal(strct.'' @ Name f @ ''); err != nil {'' @ nl @
      tab @ tab @ ''return nil, err'' @ nl @
      tab @ ''} else {'' @ nl @
      ''lines = append(lines, fmt.Sprintf("'' @ bsl @ ''"'' @ MarshalName f @ bsl @ ''": %s", tmp))'' @
      nl @
      tab @ ''}'' @ nl @
      ''}'' @ nl @
      nl,
      {''fmt''})\<close>
  unfolding emitMarshalCode_serialize_def Let_def
  by (simp only: assms prod.case if_True frame_simps)

lemma emitMarshalCode_serialize_omit_reflect:
  assumes \<open>OmitEmpty f\<close> and \<open>getZeroValueCheck (MarshalType f) = (z, False)\<close>
  shows \<open>emitMarshalCode_serialize f ([], {}) =
     (tab @ ''// Check using reflect.Value'' @ nl @
      tab @ ''if reflect.ValueOf(strct.'' @ Name f @ '').IsZero() {'' @ nl @
      ''  // Marshal the "'' @ MarshalName f @ ''" field'' @ nl @
      tab @ ''if tmp, err := json.Marshal(strct.'' @ Name f @ ''); err != nil {'' @ nl @
      tab @ tab @ ''return nil, err'' @ nl @
      tab @ ''} else {'' @ nl @
      ''lines = append(lines, fmt.Sprintf("'' @ bsl @ ''"'' @ MarshalName f @ bsl @ ''": %s", tmp))'' @
      nl @
      tab @ ''}'' @ nl @
      ''}'' @ nl @
      nl,
      {''fmt''})\<close>
  unfolding emitMarshalCode_serialize_def Let_def
  by (simp only: assms prod.case if_True if_False frame_simps)

text \<open>
  C2 at a field with \<^verbatim>\<open>OmitEmpty\<close> whose type has no zero literal: the record
  \<^verbatim>\<open>T\<close> with the single field \<^verbatim>\<open>Home\<close> of type \<^verbatim>\<open>Address\<close>. The emitted marshal
  routine serializes the field inside \<^verbatim>\<open>if reflect.ValueOf(strct.Home).IsZero() {\<close>: the
  condition is not negated, so the field is serialized when it is the zero value and
  skipped when it is not. (For a type with a zero literal the condition is
  \<^verbatim>\<open>strct.<Name> != <literal>\<close>, as \<open>emitMarshalCode_serialize_omit_literal\<close> shows.)
\<close>

theorem emitMarshalCode_omitempty_reflect:
  \<open>OmitEmpty (fieldAt (Fields s2) ''Home'') \<and>
   getZeroValueCheck (MarshalType (fieldAt (Fields s2) ''Home'')) = ('''', False) \<and>
   emitMarshalCode [] s2 {} =
     (nl @
      ''func (strct T) MarshalJSON() ([]byte, error) {'' @ nl @
      tab @ ''lines := []string{}'' @ nl @
      tab @ nl @
      tab @ ''// Check using reflect.Value'' @ nl @
      tab @ ''if reflect.ValueOf(strct.Home).IsZero() {'' @ nl @
      ''  // Marshal the "home" field'' @ nl @
      tab @ ''if tmp, err := json.Marshal(strct.Home); err != nil {'' @ nl @
      tab @ tab @ ''return nil, err'' @ nl @
      tab @ ''} else {'' @ nl @
      ''lines = append(lines, fmt.Sprintf("'' @ bsl @ ''"home'' @ bsl @ ''": %s", tmp))'' @
      nl @
      tab @ ''}'' @ nl @
      ''}'' @ nl @
      nl @
      nl @
      tab @ ''return []byte("{" + strings.Join(lines, ", ") + "}"), nil'' @ nl @
      ''}'' @ nl,
      {''fmt'', ''strings''})\<close>
proof -
  have f: \<open>fieldAt (Fields s2) ''Home'' = exField ''Home'' ''home'' ''Address'' ''Address'' False True\<close>
    by (simp add: s2_def exStruct_def fieldAt_def)
  have o: \<open>fieldsInOrder (Fields s2) = [exField ''Home'' ''home'' ''Address'' ''Address'' False True]\<close>
    by (simp add: s2_def exStruct_def fieldsInOrder_def getOrderedFieldNames_def fieldAt_def)
  have x: \<open>OmitEmpty (exField ''Home'' ''home'' ''Address'' ''Address'' False True)\<close>
    \<open>\<not> Required (exField ''Home'' ''home'' ''Address'' ''Address'' False True)\<close>
    \<open>MarshalName (exField ''Home'' ''home'' ''Address'' ''Address'' False True) = ''home''\<close>
    \<open>Name (exField ''Home'' ''home'' ''Address'' ''Address'' False True) = ''Home''\<close>
    \<open>MarshalType (exField ''Home'' ''home'' ''Address'' ''Address'' False True) = ''Address''\<close>
    by (simp_all add: exField_def)
  have z: \<open>getZeroValueCheck ''Address'' = ('''', False)\<close>
    by (simp add: getZeroValueCheck_def HasPrefix_def)
  have z': \<open>getZeroValueCheck (MarshalType (exField ''Home'' ''home'' ''Address'' ''Address'' False True)) =
      ('''', False)\<close>
    by (simp only: x z)
  have r: \<open>emitMarshalCode_required (exField ''Home'' ''home'' ''Address'' ''Address'' False True) ([], {}) =
      ([], {})\<close>
    unfolding emitMarshalCode_required_def by (simp only: x prod.case if_False)
  have m: \<open>MarshalName (exField ''Home'' ''home'' ''Address'' ''Address'' False True) \<noteq> ''-''\<close>
    by (simp add: x)
  have e: \<open>emitMarshalCode_field (exField ''Home'' ''home'' ''Address'' ''Address'' False True) ([], {}) =
      emitMarshalCode_serialize (exField ''Home'' ''home'' ''Address'' ''Address'' False True) ([], {})\<close>
    unfolding emitMarshalCode_field_def by (simp only: m if_False r)
  have a: \<open>emitMarshalCode_additional s2 ([], {}) = ([], {})\<close>
    by (simp add: emitMarshalCode_additional_def s2_def exStruct_def)
  have n: \<open>StructName s2 = ''T''\<close>
    by (simp add: s2_def exStruct_def)
  have t: \<open>fst (emitMarshalCode [] s2 {}) =
      nl @
      ''func (strct T) MarshalJSON() ([]byte, error) {'' @ nl @
      tab @ ''lines := []string{}'' @ nl @
      tab @ nl @
      tab @ ''// Check using reflect.Value'' @ nl @
      tab @ ''if reflect.ValueOf(strct.Home).IsZero() {'' @ nl @
      ''  // Marshal the "home" field'' @ nl @
      tab @ ''if tmp, err := json.Marshal(strct.Home); err != nil {'' @ nl @
      tab @ tab @ ''return nil, err'' @ nl @
      tab @ ''} else {'' @ nl @
      ''lines = append(lines, fmt.Sprintf("'' @ bsl @ ''"home'' @ bsl @ ''": %s", tmp))'' @
      nl @
      tab @ ''}'' @ nl @
      ''}'' @ nl @
      nl @
      nl @
      tab @ ''return []byte("{" + strings.Join(lines, ", ") + "}"), nil'' @ nl @
      ''}'' @ nl\<close>
    by (simp add: emitMarshalCode_sections o e a n
          emitMarshalCode_serialize_omit_reflect [OF x(1) z'] x)
  have i: \<open>snd (emitMarshalCode [] s2 {}) = {''fmt'', ''strings''}\<close>
    by (simp add: emitMarshalCode_imports o e a
          emitMarshalCode_serialize_omit_reflect [OF x(1) z'] insert_commute)
  have \<open>emitMarshalCode [] s2 {} = (fst (emitMarshalCode [] s2 {}), snd (emitMarshalCode [] s2 {}))\<close>
    by simp
  then show ?thesis
    unfolding t i by (simp add: f x z)
qed

subsection \<open>The collected facilities\<close>

lemma emitUnmarshalCode_imports:
  \<open>snd (emitUnmarshalCode w s I) =
     insert ''encoding/json''
       (I \<union> (\<Union>((\<lambda>f. snd (emitUnmarshalCode_case f ([], {}))) ` set (fieldsInOrder (Fields s))) \<union>
         (snd (emitUnmarshalCode_additional s ([], {})) \<union>
          \<Union>((\<lambda>f. snd (emitUnmarshalCode_check f ([], {}))) ` set (fieldsInOrder (Fields s))))))\<close>
proof -
  obtain t i where a: \<open>emitUnmarshalCode_additional s ([], {}) = (t, i)\<close>
    by (cases \<open>emitUnmarshalCode_additional s ([], {})\<close>)
  have a': \<open>emitUnmarshalCode_additional s (w', I') = (w' @ t, I' \<union> i)\<close> for w' I'
    using a unfolding emitUnmarshalCode_additional_def
    by (auto simp only: prod.case prod.inject append_Nil append_Nil2 Un_empty_right Un_insert_right
          split: if_splits)
  show ?thesis
    unfolding emitUnmarshalCode_def fieldsInOrder_def Let_def split_def
    by (simp only: emitUnmarshalCode_flag_fold emitUnmarshalCode_case_fold
          emitUnmarshalCode_check_fold a a' set_map image_image frame_simps)
qed

lemma collectedImports_exGenerator:
  \<open>collectedImports (exGenerator fs) =
     snd (emitMarshalCode [] (exStruct fs) {}) \<union> snd (emitUnmarshalCode [] (exStruct fs) {})\<close>
  by (simp add: collectedImports_def exGenerator_def structsInOrder_def
        getOrderedStructNames_def structAt_def routineImports_def exStruct_def)

lemma Output_exGenerator_routines:
  \<open>\<exists>pre. Output rangeOrder w (exGenerator fs) pkg =
     pre @ marshalRoutine (exStruct fs) @ unmarshalRoutine (exStruct fs) @
     toMapRoutine (exStruct fs)\<close>
proof -
  have s: \<open>filter GenerateCode (structsInOrder (Structs (exGenerator fs))) = [exStruct fs]\<close>
    by (simp add: exGenerator_def structsInOrder_def getOrderedStructNames_def structAt_def
          exStruct_def)
  show ?thesis
    unfolding Output_sections s
    by (simp only: list.map concat.simps append_Nil2 append_assoc [symmetric]) blast
qed

lemma sublist_in_middle:
  assumes \<open>sublist x b\<close>
  shows \<open>sublist x (a @ b @ c)\<close>
proof -
  obtain p q where \<open>b = p @ x @ q\<close>
    using assms by (auto simp add: sublist_def)
  then have \<open>a @ b @ c = (a @ p) @ x @ (q @ c)\<close>
    by simp
  then show ?thesis
    unfolding sublist_def by blast
qed

text \<open>
  C3 at a record with a field that is an integer when written and a text when read: the
  record \<^verbatim>\<open>T\<close> with the single field \<^verbatim>\<open>Age\<close>, \<^verbatim>\<open>MarshalType\<close> \<^verbatim>\<open>int\<close> and
  \<^verbatim>\<open>UnmarshalType\<close> \<^verbatim>\<open>string\<close>. The output calls \<^verbatim>\<open>strconv.ParseInt\<close>, and the
  facility set collected for the import block is \<^verbatim>\<open>encoding/json\<close>, \<^verbatim>\<open>fmt\<close> and
  \<^verbatim>\<open>strings\<close>: \<^verbatim>\<open>strconv\<close> is not in it.
\<close>

theorem Output_strconv_not_collected:
  \<open>collectedImports g3 = {''encoding/json'', ''fmt'', ''strings''} \<and>
   ''strconv'' \<notin> collectedImports g3 \<and>
   sublist ''strconv.ParseInt(v, 10, 0)'' (Output sorted_list_of_set [] g3 ''main'')\<close>
proof -
  let ?f = \<open>exField ''Age'' ''age'' ''int'' ''string'' False False\<close>
  let ?s = \<open>exStruct [(''Age'', ?f)]\<close>
  have o: \<open>fieldsInOrder (Fields ?s) = [?f]\<close>
    by (simp add: exStruct_def fieldsInOrder_def getOrderedFieldNames_def fieldAt_def)
  have x: \<open>\<not> OmitEmpty ?f\<close> \<open>\<not> Required ?f\<close> \<open>MarshalName ?f = ''age''\<close>
    \<open>UnmarshalName ?f = ''age''\<close> \<open>Name ?f = ''Age''\<close> \<open>MarshalType ?f = ''int''\<close>
    \<open>UnmarshalType ?f = ''string''\<close>
    by (simp_all add: exField_def)
  have u: \<open>emitUnmarshalFieldCode [] ?f {} =
      ((''        case "age":'' @ nl @
        ''            if newVal, err := '') @ ''strconv.ParseInt(v, 10, 0)'' @
       (''; err != nil {'' @ nl @
        ''                return err'' @ nl @
        ''             }'' @ nl @
        ''            if err := json.Unmarshal([]byte(newVal), &strct.Age); err != nil {'' @ nl @
        ''                return err'' @ nl @
        ''             }'' @ nl),
       {})\<close>
    by (simp add: emitUnmarshalFieldCode_def x)
  have c: \<open>emitUnmarshalCode_case ?f ([], {}) = emitUnmarshalFieldCode [] ?f {}\<close>
    by (simp add: emitUnmarshalCode_case_def x u)
  have k: \<open>emitUnmarshalCode_check ?f ([], {}) = ([], {})\<close>
    by (simp add: emitUnmarshalCode_check_def x)
  have au: \<open>emitUnmarshalCode_additional ?s ([], {}) = ([], {})\<close>
    by (simp add: emitUnmarshalCode_additional_def exStruct_def)
  have am: \<open>emitMarshalCode_additional ?s ([], {}) = ([], {})\<close>
    by (simp add: emitMarshalCode_additional_def exStruct_def)
  have mi: \<open>snd (emitMarshalCode_field ?f ([], {})) = {''fmt''}\<close>
    by (simp add: emitMarshalCode_field_def emitMarshalCode_required_def
          emitMarshalCode_serialize_def x)
  have i: \<open>collectedImports g3 = {''encoding/json'', ''fmt'', ''strings''}\<close>
    unfolding g3_def collectedImports_exGenerator emitMarshalCode_imports
      emitUnmarshalCode_imports o
    by (simp add: mi am c u k au) blast
  have \<open>sublist ''strconv.ParseInt(v, 10, 0)'' (fst (emitUnmarshalFieldCode [] ?f {}))\<close>
    unfolding u fst_conv by (rule sublist_appendI)
  then have \<open>sublist ''strconv.ParseInt(v, 10, 0)''
      (concat (map (\<lambda>f. fst (emitUnmarshalCode_case f ([], {}))) (fieldsInOrder (Fields ?s))))\<close>
    by (simp only: o list.map concat.simps append_Nil2 c)
  then have \<open>sublist ''strconv.ParseInt(v, 10, 0)'' (unmarshalBeforeDefault ?s)\<close>
    unfolding unmarshalBeforeDefault_def
    by (simp only: append_assoc [symmetric]) (rule sublist_in_middle [where c = \<open>[]\<close>, simplified])
  then have \<open>sublist ''strconv.ParseInt(v, 10, 0)'' (unmarshalRoutine ?s)\<close>
    unfolding unmarshalRoutine_def emitUnmarshalCode_sections
    using sublist_in_middle [where a = \<open>[]\<close>] by simp
  moreover obtain pre where \<open>Output sorted_list_of_set [] g3 ''main'' =
      pre @ marshalRoutine ?s @ unmarshalRoutine ?s @ toMapRoutine ?s\<close>
    unfolding g3_def using Output_exGenerator_routines by blast
  ultimately have \<open>sublist ''strconv.ParseInt(v, 10, 0)'' (Output sorted_list_of_set [] g3 ''main'')\<close>
    using sublist_in_middle [of _ \<open>unmarshalRoutine ?s\<close> \<open>pre @ marshalRoutine ?s\<close> \<open>toMapRoutine ?s\<close>]
    by simp
  with i show ?thesis by simp
qed

subsection \<open>Orchestrator: the order of the import block\<close>

lemma sorted_list_of_set_two:
  \<open>sorted_list_of_set {''encoding/json'', ''strings''} = [''encoding/json'', ''strings'']\<close>
  by code_simp

text \<open>
  C1 at the model with the single record \<^verbatim>\<open>T\<close> that has no field and generates code.
  The facility set is \<^verbatim>\<open>encoding/json\<close> and \<^verbatim>\<open>strings\<close>. \<^verbatim>\<open>Output\<close> ranges over
  it without sorting, and both orders of the two keys are orders the range may take; the
  two outputs differ, so two generations from the same model need not be byte-identical.
\<close>

theorem Output_depends_on_range_order:
  \<open>collectedImports (exGenerator []) = {''encoding/json'', ''strings''} \<and>
   validRange sorted_list_of_set (collectedImports (exGenerator [])) \<and>
   validRange (rev \<circ> sorted_list_of_set) (collectedImports (exGenerator [])) \<and>
   Output sorted_list_of_set [] (exGenerator []) ''main'' \<noteq>
     Output (rev \<circ> sorted_list_of_set) [] (exGenerator []) ''main''\<close>
proof -
  have o: \<open>fieldsInOrder (Fields (exStruct [])) = []\<close>
    by (simp add: exStruct_def fieldsInOrder_def getOrderedFieldNames_def)
  have au: \<open>emitUnmarshalCode_additional (exStruct []) ([], {}) = ([], {})\<close>
    by (simp add: emitUnmarshalCode_additional_def exStruct_def)
  have am: \<open>emitMarshalCode_additional (exStruct []) ([], {}) = ([], {})\<close>
    by (simp add: emitMarshalCode_additional_def exStruct_def)
  have i: \<open>collectedImports (exGenerator []) = {''encoding/json'', ''strings''}\<close>
    unfolding collectedImports_exGenerator emitMarshalCode_imports emitUnmarshalCode_imports o
    by (simp add: am au)
  have v1: \<open>validRange sorted_list_of_set (collectedImports (exGenerator []))\<close>
    unfolding i validRange_def by simp
  have v2: \<open>validRange (rev \<circ> sorted_list_of_set) (collectedImports (exGenerator []))\<close>
    unfolding i validRange_def by (simp add: insert_commute)
  have ne: \<open>{''encoding/json'', ''strings''} \<noteq> ({} :: string set)\<close>
    by simp
  define pre where \<open>pre =
     ''// Code generated by schema-generate. DO NOT EDIT.'' @ nl @
     nl @
     ''package '' @ cleanPackageName ''main'' @ nl @ nl @ ''import ('' @ nl\<close>
  define post where \<open>post = '')'' @ nl @
     concat (map (\<lambda>a. Output_alias a []) (fieldsInOrder (Aliases (exGenerator [])))) @
     concat (map (\<lambda>s. Output_struct s []) (structsInOrder (Structs (exGenerator [])))) @
     concat (map (\<lambda>s. marshalRoutine s @ unmarshalRoutine s @ toMapRoutine s)
       (filter GenerateCode (structsInOrder (Structs (exGenerator [])))))\<close>
  have out: \<open>Output r [] (exGenerator []) ''main'' =
      pre @ concat (map (\<lambda>k. ''    "'' @ k @ ''"'' @ nl) (r {''encoding/json'', ''strings''})) @ post\<close>
    for r
    unfolding Output_sections pre_def post_def
    by (simp only: i ne simp_thms if_True append_Nil append_assoc)
  have b1: \<open>concat (map (\<lambda>k. ''    "'' @ k @ ''"'' @ nl)
        (sorted_list_of_set {''encoding/json'', ''strings''})) =
      ''    "encoding/json"'' @ nl @ ''    "strings"'' @ nl\<close>
    unfolding sorted_list_of_set_two by simp
  have b2: \<open>concat (map (\<lambda>k. ''    "'' @ k @ ''"'' @ nl)
        ((rev \<circ> sorted_list_of_set) {''encoding/json'', ''strings''})) =
      ''    "strings"'' @ nl @ ''    "encoding/json"'' @ nl\<close>
    unfolding o_def sorted_list_of_set_two by simp
  have \<open>Output sorted_list_of_set [] (exGenerator []) ''main'' \<noteq>
      Output (rev \<circ> sorted_list_of_set) [] (exGenerator []) ''main''\<close>
    unfolding out b1 b2 by simp
  with i v1 v2 show ?thesis by blast
qed

end
